theory Spec2Isabelle
  imports Complex_Main
begin

section \<open>The component catalog\<close>

text \<open>
  \<^verbatim>\<open>placement.py\<close> reads every physical attribute of a component from the catalog
  \<^verbatim>\<open>data/components.json\<close> through \<^verbatim>\<open>get_comp\<close>. The catalog file is data, so the
  model takes it as a parameter \<open>db\<close>: a dictionary from component ids to entries whose
  keys may all be absent. Python floats are modelled as real numbers.
\<close>

record comp_entry =
  ref_designator_prefix :: "string option"
  subcategory :: "string option"
  category :: "string option"
  dimensions_mm :: "(real \<times> real) option"
  placement_zone :: "string option"
  placement_priority :: "real option"
  courtyard_clearance_mm :: "real option"

type_synonym catalog = "string \<rightharpoonup> comp_entry"

definition no_entry :: comp_entry where
  "no_entry = \<lparr>ref_designator_prefix = None, subcategory = None, category = None,
     dimensions_mm = None, placement_zone = None, placement_priority = None,
     courtyard_clearance_mm = None\<rparr>"

text \<open>\<^verbatim>\<open>load_db().get(component_id, {})\<close>: an unknown id is the empty entry.\<close>

definition get_comp :: "catalog \<Rightarrow> string \<Rightarrow> comp_entry" where
  "get_comp db component_id = (case db component_id of None \<Rightarrow> no_entry | Some e \<Rightarrow> e)"

text \<open>\<^verbatim>\<open>d.get(k, default)\<close> on a literal table, and \<^verbatim>\<open>comp.get(k, default)\<close>.\<close>

definition dict_get :: "('k \<times> 'v) list \<Rightarrow> 'k \<Rightarrow> 'v \<Rightarrow> 'v" where
  "dict_get table k dflt = (case map_of table k of None \<Rightarrow> dflt | Some v \<Rightarrow> v)"

definition get_or :: "'v option \<Rightarrow> 'v \<Rightarrow> 'v" where
  "get_or field dflt = (case field of None \<Rightarrow> dflt | Some v \<Rightarrow> v)"

definition FALLBACK_DIMS :: "(string \<times> (real \<times> real)) list" where
  "FALLBACK_DIMS =
    [(''mcu'', (10, 10)), (''power'', (6, 4)), (''sensor'', (5, 4)), (''comms'', (16, 16)),
     (''motor_driver'', (5, 5)), (''display'', (30, 25)), (''connector'', (8, 6)),
     (''passive'', (1, 1/2)), (''default'', (5, 5))]"

definition FALLBACK_ZONE :: "(string \<times> string) list" where
  "FALLBACK_ZONE =
    [(''mcu'', ''centre''), (''power'', ''power_column''), (''sensor'', ''centre_right''),
     (''comms'', ''edge_top''), (''motor_driver'', ''edge_bottom''), (''display'', ''edge_top''),
     (''connector'', ''edge_bottom''), (''passive'', ''any'')]"

definition FALLBACK_PRIORITY :: "(string \<times> real) list" where
  "FALLBACK_PRIORITY =
    [(''mcu'', 1), (''comms'', 2), (''connector'', 3), (''power'', 4),
     (''motor_driver'', 5), (''display'', 6), (''sensor'', 7), (''passive'', 9)]"

text \<open>
  Three expressions recur inline in the source; each is written once here.
  \<^verbatim>\<open>comp.get("dimensions_mm") or FALLBACK_DIMS.get(comp.get("category", ""), FALLBACK_DIMS["default"])\<close>
  (an absent, null or empty \<^verbatim>\<open>dimensions_mm\<close> is \<open>None\<close>; a present one has both keys),
  \<^verbatim>\<open>comp.get("placement_zone") or FALLBACK_ZONE.get(comp.get("category", ""), "any")\<close>
  (the empty string is falsy, so it falls through), and
  \<^verbatim>\<open>comp.get("placement_priority", FALLBACK_PRIORITY.get(comp.get("category", ""), 9))\<close>.
\<close>

definition entry_dims :: "comp_entry \<Rightarrow> real \<times> real" where
  "entry_dims entry =
     (case dimensions_mm entry of
        Some d \<Rightarrow> d
      | None \<Rightarrow> dict_get FALLBACK_DIMS (get_or (category entry) '''') (5, 5))"

definition entry_zone :: "comp_entry \<Rightarrow> string" where
  "entry_zone entry =
     (case placement_zone entry of
        Some z \<Rightarrow> if z \<noteq> '''' then z
                  else dict_get FALLBACK_ZONE (get_or (category entry) '''') ''any''
      | None \<Rightarrow> dict_get FALLBACK_ZONE (get_or (category entry) '''') ''any'')"

definition entry_priority :: "comp_entry \<Rightarrow> real" where
  "entry_priority entry =
     get_or (placement_priority entry)
       (dict_get FALLBACK_PRIORITY (get_or (category entry) '''') 9)"

section \<open>Reference designators\<close>

text \<open>
  A resolved component is read only through \<^verbatim>\<open>rc["component_id"]\<close> and, once
  \<^verbatim>\<open>assign_refs\<close> has added it, \<^verbatim>\<open>rc["ref"]\<close>; its other keys are carried along untouched.
\<close>

record rcomp =
  component_id :: string
  ref :: string

definition PREFIX_FALLBACK :: "(string \<times> string) list" where
  "PREFIX_FALLBACK =
    [(''mcu'', ''U''), (''power'', ''U''), (''sensor'', ''U''), (''comms'', ''U''),
     (''motor_driver'', ''U''), (''display'', ''LCD''), (''connector'', ''J''),
     (''passive'', ''?'')]"

definition SUB_PREFIX :: "(string \<times> string) list" where
  "SUB_PREFIX =
    [(''capacitor'', ''C''), (''resistor'', ''R''), (''diode'', ''D''), (''diode_flyback'', ''D''),
     (''led'', ''LED''), (''mosfet_n'', ''Q''), (''mosfet_p'', ''Q''), (''tvs_esd'', ''D''),
     (''tvs_diode'', ''D''), (''crystal'', ''X''), (''inductor'', ''L''), (''fuse'', ''F''),
     (''test_point'', ''TP''), (''fiducial'', ''FID'')]"

text \<open>The three-way \<^verbatim>\<open>or\<close> chain that picks the prefix; \<^verbatim>\<open>None\<close> and \<^verbatim>\<open>""\<close> are falsy.\<close>

definition truthy :: "string option \<Rightarrow> bool" where
  "truthy v = (case v of None \<Rightarrow> False | Some s \<Rightarrow> s \<noteq> '''')"

definition entry_prefix :: "comp_entry \<Rightarrow> string" where
  "entry_prefix entry =
     (if truthy (ref_designator_prefix entry) then the (ref_designator_prefix entry)
      else if truthy (map_of SUB_PREFIX (get_or (subcategory entry) ''''))
           then the (map_of SUB_PREFIX (get_or (subcategory entry) ''''))
      else dict_get PREFIX_FALLBACK (get_or (category entry) '''') ''U'')"

text \<open>Python's \<^verbatim>\<open>str\<close> of a non-negative integer, as the f-string \<^verbatim>\<open>f"{prefix}{n}"\<close> formats it.\<close>

definition digit_char :: "nat \<Rightarrow> char" where
  "digit_char d = ''0123456789'' ! d"

function str_nat :: "nat \<Rightarrow> string" where
  "str_nat n = (if n < 10 then [digit_char n] else str_nat (n div 10) @ [digit_char (n mod 10)])"
  by pat_completeness auto
termination
  by (relation "measure id") auto

declare str_nat.simps [simp del]

text \<open>
  The loop of \<^verbatim>\<open>assign_refs\<close>: \<open>counters\<close> is the dictionary of per-prefix counters, and
  each component appends one dictionary with its \<^verbatim>\<open>ref\<close> to the result.
\<close>

fun assign_refs_loop :: "catalog \<Rightarrow> (string \<rightharpoonup> nat) \<Rightarrow> string list \<Rightarrow> rcomp list" where
  "assign_refs_loop db counters [] = []"
| "assign_refs_loop db counters (cid # rest) =
     (let entry = get_comp db cid;
          prefix = entry_prefix entry;
          n = get_or (counters prefix) 0 + 1
      in \<lparr>component_id = cid, ref = prefix @ str_nat n\<rparr>
           # assign_refs_loop db (counters(prefix \<mapsto> n)) rest)"

definition assign_refs :: "catalog \<Rightarrow> string list \<Rightarrow> rcomp list" where
  "assign_refs db components = assign_refs_loop db Map.empty components"

section \<open>Zones, positions and the score\<close>

record pos =
  x_mm :: real
  y_mm :: real
  rotation :: int

type_synonym placement = "string \<rightharpoonup> pos"

definition zone_centre :: "string \<Rightarrow> real \<Rightarrow> real \<Rightarrow> real \<Rightarrow> real \<times> real" where
  "zone_centre zone w h margin =
     (let inner_w = w - 2 * margin;
          inner_h = h - 2 * margin;
          zones =
            [(''edge_top'', (w / 2, margin + inner_h * (1/10))),
             (''edge_bottom'', (w / 2, margin + inner_h * (9/10))),
             (''edge_left'', (margin + inner_w * (1/10), h / 2)),
             (''edge_right'', (margin + inner_w * (9/10), h / 2)),
             (''centre'', (w / 2, h / 2)),
             (''centre_right'', (margin + inner_w * (7/10), h / 2)),
             (''power_column'', (margin + inner_w * (15/100), h / 2)),
             (''any'', (w / 2, h / 2))]
      in dict_get zones zone (w / 2, h / 2))"

text \<open>\<^verbatim>\<open>get_pos\<close>: a reference missing from the placement reads as the origin.\<close>

definition get_pos :: "string \<Rightarrow> placement \<Rightarrow> real \<times> real" where
  "get_pos r placement =
     (case placement r of None \<Rightarrow> (0, 0) | Some p \<Rightarrow> (x_mm p, y_mm p))"

definition get_dims :: "catalog \<Rightarrow> string \<Rightarrow> real \<times> real" where
  "get_dims db cid =
     (let entry = get_comp db cid;
          dims = entry_dims entry;
          clearance = get_or (courtyard_clearance_mm entry) (1/4)
      in (fst dims + clearance * 2, snd dims + clearance * 2))"

definition overlap_penalty ::
  "catalog \<Rightarrow> string \<Rightarrow> rcomp \<Rightarrow> string \<Rightarrow> rcomp \<Rightarrow> placement \<Rightarrow> real" where
  "overlap_penalty db ref_a comp_a ref_b comp_b placement =
     (let (ax, ay) = get_pos ref_a placement;
          (bx, by) = get_pos ref_b placement;
          (aw, ah) = get_dims db (component_id comp_a);
          (bw, bh) = get_dims db (component_id comp_b);
          dx = \<bar>ax - bx\<bar>;
          dy = \<bar>ay - by\<bar>;
          min_dx = (aw + bw) / 2;
          min_dy = (ah + bh) / 2
      in if dx < min_dx \<and> dy < min_dy
         then (let overlap_x = min_dx - dx; overlap_y = min_dy - dy
               in overlap_x * overlap_y * 50)
         else 0)"

definition hypot :: "real \<Rightarrow> real \<Rightarrow> real" where
  "hypot a b = sqrt (a\<^sup>2 + b\<^sup>2)"

definition zone_penalty ::
  "catalog \<Rightarrow> string \<Rightarrow> string \<Rightarrow> placement \<Rightarrow> real \<Rightarrow> real \<Rightarrow> real \<Rightarrow> real" where
  "zone_penalty db r cid placement w h margin =
     (let entry = get_comp db cid;
          zone = entry_zone entry
      in if zone = ''any'' then 0
         else (let (x, y) = get_pos r placement;
                   (zx, zy) = zone_centre zone w h margin;
                   dist = hypot (x - zx) (y - zy);
                   priority = entry_priority entry;
                   weight = max (1/10) ((10 - priority) * (3/10))
               in dist * weight))"

definition WEIGHTS :: "(string \<times> real) list" where
  "WEIGHTS =
    [(''mcu'', 0), (''power'', 8/10), (''sensor'', 1), (''comms'', 12/10),
     (''motor_driver'', 6/10), (''display'', 5/10), (''connector'', 3/10),
     (''passive'', 1/10)]"

text \<open>
  The loop body of \<^verbatim>\<open>wire_length_score\<close> with its running \<^verbatim>\<open>total\<close>, then the function
  with its guard \<^verbatim>\<open>not mcu_ref or mcu_ref not in placement\<close> (\<^verbatim>\<open>None\<close> and \<^verbatim>\<open>""\<close> are falsy).
\<close>

fun wire_loop ::
  "catalog \<Rightarrow> placement \<Rightarrow> string \<Rightarrow> real \<times> real \<Rightarrow> real \<Rightarrow> rcomp list \<Rightarrow> real" where
  "wire_loop db placement mcu m tot [] = tot"
| "wire_loop db placement mcu m tot (rc # rest) =
     (if ref rc = mcu then wire_loop db placement mcu m tot rest
      else (let entry = get_comp db (component_id rc);
                cat = get_or (category entry) ''passive'';
                wt = dict_get WEIGHTS cat (1/2);
                (x, y) = get_pos (ref rc) placement
            in wire_loop db placement mcu m
                 (tot + hypot (x - fst m) (y - snd m) * wt) rest))"

definition wire_length_score :: "catalog \<Rightarrow> rcomp list \<Rightarrow> placement \<Rightarrow> string option \<Rightarrow> real" where
  "wire_length_score db components placement mcu_ref =
     (case mcu_ref of
        None \<Rightarrow> 0
      | Some mcu \<Rightarrow>
          if mcu = '''' \<or> placement mcu = None then 0
          else wire_loop db placement mcu (get_pos mcu placement) 0 components)"

text \<open>
  The two running sums of \<^verbatim>\<open>score\<close>: the zone penalties (called with the default
  margin 3.0), then the overlap penalties over \<^verbatim>\<open>components[i + 1:]\<close> for each index.
\<close>

fun zone_loop :: "catalog \<Rightarrow> placement \<Rightarrow> real \<Rightarrow> real \<Rightarrow> real \<Rightarrow> rcomp list \<Rightarrow> real" where
  "zone_loop db placement w h s [] = s"
| "zone_loop db placement w h s (rc # rest) =
     zone_loop db placement w h
       (s + zone_penalty db (ref rc) (component_id rc) placement w h 3) rest"

fun overlap_inner :: "catalog \<Rightarrow> placement \<Rightarrow> rcomp \<Rightarrow> real \<Rightarrow> rcomp list \<Rightarrow> real" where
  "overlap_inner db placement a s [] = s"
| "overlap_inner db placement a s (b # rest) =
     overlap_inner db placement a (s + overlap_penalty db (ref a) a (ref b) b placement) rest"

fun overlap_outer :: "catalog \<Rightarrow> placement \<Rightarrow> real \<Rightarrow> rcomp list \<Rightarrow> real" where
  "overlap_outer db placement s [] = s"
| "overlap_outer db placement s (a # rest) =
     overlap_outer db placement (overlap_inner db placement a s rest) rest"

definition score ::
  "catalog \<Rightarrow> rcomp list \<Rightarrow> placement \<Rightarrow> real \<Rightarrow> real \<Rightarrow> string option \<Rightarrow> real" where
  "score db components placement w h mcu_ref =
     overlap_outer db placement
       (zone_loop db placement w h
          (wire_length_score db components placement mcu_ref) components)
       components"

section \<open>Initial placement\<close>

text \<open>
  \<^verbatim>\<open>round(v, 2)\<close> on the reals: to the nearest hundredth, a tie going to the even
  neighbour.
\<close>

definition round_half_even :: "real \<Rightarrow> int" where
  "round_half_even v =
     (let f = \<lfloor>v\<rfloor>; d = v - of_int f
      in if d < 1/2 then f else if 1/2 < d then f + 1 else if even f then f else f + 1)"

definition round2 :: "real \<Rightarrow> real" where
  "round2 v = of_int (round_half_even (v * 100)) / 100"

text \<open>
  The loop of \<^verbatim>\<open>initial_placement\<close> over the components sorted by priority. The two
  calls of \<^verbatim>\<open>random.uniform(-1.0, 1.0)\<close> read the interpreter's global generator; the model
  takes what they return for the \<open>k\<close>-th component placed as \<open>jitter k\<close>. \<open>place_one\<close>
  is the loop body up to the position stored for the component, with \<open>n\<close> the number
  of components already placed in its zone.
\<close>

definition place_one ::
  "catalog \<Rightarrow> real \<Rightarrow> real \<Rightarrow> real \<Rightarrow> real \<times> real \<Rightarrow> nat \<Rightarrow> rcomp \<Rightarrow> pos" where
  "place_one db w h margin j n rc =
     (let entry = get_comp db (component_id rc);
          zone = entry_zone entry;
          dims = entry_dims entry;
          (cx, cy) = zone_centre zone w h margin;
          row = n div 4;
          col = n mod 4;
          step_x = max (fst dims + 2) 6;
          step_y = max (snd dims + 2) 6;
          offset_x = (real col - 3/2) * step_x;
          offset_y = (real row - 1/2) * step_y;
          x0 = cx + offset_x + fst j;
          y0 = cy + offset_y + snd j;
          hw = fst dims / 2;
          hh = snd dims / 2;
          x1 = max (margin + hw) (min (w - margin - hw) x0);
          y1 = max (margin + hh) (min (h - margin - hh) y0)
      in \<lparr>x_mm = round2 x1, y_mm = round2 y1, rotation = 0\<rparr>)"

fun placement_loop ::
  "catalog \<Rightarrow> real \<Rightarrow> real \<Rightarrow> real \<Rightarrow> (nat \<Rightarrow> real \<times> real) \<Rightarrow> nat \<Rightarrow> (string \<rightharpoonup> nat)
     \<Rightarrow> placement \<Rightarrow> rcomp list \<Rightarrow> placement" where
  "placement_loop db w h margin jitter k zone_offsets placement [] = placement"
| "placement_loop db w h margin jitter k zone_offsets placement (rc # rest) =
     placement_loop db w h margin jitter (Suc k)
       (zone_offsets(entry_zone (get_comp db (component_id rc)) \<mapsto>
          get_or (zone_offsets (entry_zone (get_comp db (component_id rc)))) 0 + 1))
       (placement(ref rc \<mapsto>
          place_one db w h margin (jitter k)
            (get_or (zone_offsets (entry_zone (get_comp db (component_id rc)))) 0) rc))
       rest"

text \<open>\<^verbatim>\<open>sorted\<close> is stable, as \<^const>\<open>sort_key\<close> is.\<close>

definition initial_placement ::
  "catalog \<Rightarrow> rcomp list \<Rightarrow> real \<Rightarrow> real \<Rightarrow> real \<Rightarrow> (nat \<Rightarrow> real \<times> real) \<Rightarrow> placement" where
  "initial_placement db components w h margin jitter =
     placement_loop db w h margin jitter 0 Map.empty Map.empty
       (sort_key (\<lambda>c. entry_priority (get_comp db (component_id c))) components)"

section \<open>Simulated annealing\<close>

text \<open>
  One iteration reads the global generator through \<^verbatim>\<open>random.random()\<close> (the move, and
  the acceptance test when it is reached), \<^verbatim>\<open>random.choice(refs)\<close>, \<^verbatim>\<open>random.gauss(0, sigma)\<close>
  twice and \<^verbatim>\<open>random.sample(refs, 2)\<close>. The model takes what iteration \<open>i\<close> would read as
  the record \<open>draws i\<close>: \<open>pick\<close> is reduced modulo the number of references to the index
  that \<^verbatim>\<open>choice\<close> selects, \<open>gauss_x\<close> and \<open>gauss_y\<close> are standard normal values that
  \<^verbatim>\<open>gauss\<close> scales by \<open>sigma\<close>, and \<open>sample\<close> yields the two distinct indices of
  \<^verbatim>\<open>sample\<close>. \<open>clock i\<close> is \<^verbatim>\<open>time.monotonic() - t0\<close> as read when \<^verbatim>\<open>itr\<close> is \<open>i\<close>.
\<close>

record sa_draw =
  move :: real
  pick :: nat
  gauss_x :: real
  gauss_y :: real
  sample :: "nat \<times> nat"
  accept :: real

datatype py_error = KeyError | IndexError | StopIteration

definition choice :: "string list \<Rightarrow> nat \<Rightarrow> py_error + string" where
  "choice refs k = (if refs = [] then Inl IndexError else Inr (refs ! (k mod length refs)))"

definition sample2 :: "string list \<Rightarrow> nat \<times> nat \<Rightarrow> string \<times> string" where
  "sample2 refs k =
     (let n = length refs;
          i = fst k mod n;
          j = (i + 1 + snd k mod (n - 1)) mod n
      in (refs ! i, refs ! j))"

definition translate_move ::
  "catalog \<Rightarrow> rcomp list \<Rightarrow> real \<Rightarrow> real \<Rightarrow> real \<Rightarrow> real \<Rightarrow> sa_draw \<Rightarrow> placement
     \<Rightarrow> py_error + placement" where
  "translate_move db components w h margin temperature d candidate =
     (case choice (map ref components) (pick d) of
        Inl e \<Rightarrow> Inl e
      | Inr r \<Rightarrow>
         (case find (\<lambda>rc. ref rc = r) components of
            None \<Rightarrow> Inl StopIteration
          | Some rc \<Rightarrow>
             (let entry = get_comp db (component_id rc);
                  dims = entry_dims entry;
                  hw = fst dims / 2;
                  hh = snd dims / 2;
                  sigma = max 3 (temperature * (15/100))
              in case candidate r of
                   None \<Rightarrow> Inl KeyError
                 | Some p \<Rightarrow>
                    (let new_x0 = x_mm p + sigma * gauss_x d;
                         new_y0 = y_mm p + sigma * gauss_y d;
                         new_x = max (margin + hw) (min (w - margin - hw) new_x0);
                         new_y = max (margin + hh) (min (h - margin - hh) new_y0)
                     in Inr (candidate(r \<mapsto>
                          \<lparr>x_mm = round2 new_x, y_mm = round2 new_y,
                           rotation = rotation p\<rparr>))))))"

definition rotate_move :: "rcomp list \<Rightarrow> sa_draw \<Rightarrow> placement \<Rightarrow> py_error + placement" where
  "rotate_move components d candidate =
     (case choice (map ref components) (pick d) of
        Inl e \<Rightarrow> Inl e
      | Inr r \<Rightarrow>
         (case candidate r of
            None \<Rightarrow> Inl KeyError
          | Some p \<Rightarrow> Inr (candidate(r \<mapsto> p\<lparr>rotation := (rotation p + 90) mod 360\<rparr>))))"

text \<open>The swap; \<open>None\<close> is the \<^verbatim>\<open>continue\<close> taken when fewer than two references exist.\<close>

definition swap_move :: "rcomp list \<Rightarrow> sa_draw \<Rightarrow> placement \<Rightarrow> py_error + placement option" where
  "swap_move components d candidate =
     (let refs = map ref components
      in if length refs < 2 then Inr None
         else (let (r1, r2) = sample2 refs (sample d)
               in case candidate r2 of
                    None \<Rightarrow> Inl KeyError
                  | Some p2 \<Rightarrow>
                     (case candidate r1 of
                        None \<Rightarrow> Inl KeyError
                      | Some p1 \<Rightarrow> Inr (Some (candidate(r1 \<mapsto> p2, r2 \<mapsto> p1))))))"

definition sa_move ::
  "catalog \<Rightarrow> rcomp list \<Rightarrow> real \<Rightarrow> real \<Rightarrow> real \<Rightarrow> real \<Rightarrow> sa_draw \<Rightarrow> placement
     \<Rightarrow> py_error + placement option" where
  "sa_move db components w h margin temperature d candidate =
     (if move d < 1/2 then
        (case translate_move db components w h margin temperature d candidate of
           Inl e \<Rightarrow> Inl e | Inr c \<Rightarrow> Inr (Some c))
      else if move d < 7/10 then
        (case rotate_move components d candidate of
           Inl e \<Rightarrow> Inl e | Inr c \<Rightarrow> Inr (Some c))
      else swap_move components d candidate)"

record sa_state =
  current :: placement
  best :: placement
  cur_s :: real
  best_s :: real
  temperature :: real
  itr :: nat

definition T_min :: real where "T_min = 1/2"
definition alpha :: real where "alpha = 997/1000"
definition MAX_ITR :: nat where "MAX_ITR = 8000"

text \<open>The acceptance step of one iteration, up to and including \<^verbatim>\<open>T *= alpha\<close>.\<close>

definition sa_accept :: "sa_draw \<Rightarrow> placement \<Rightarrow> real \<Rightarrow> sa_state \<Rightarrow> sa_state" where
  "sa_accept d candidate new_s s =
     (let delta = new_s - cur_s s;
          s1 = (if delta < 0 \<or> accept d < exp (- delta / temperature s)
                then (let s2 = s\<lparr>current := candidate, cur_s := new_s\<rparr>
                      in if cur_s s2 < best_s s2
                         then s2\<lparr>best := current s2, best_s := cur_s s2\<rparr>
                         else s2)
                else s)
      in s1\<lparr>temperature := temperature s1 * alpha\<rparr>)"

function sa_loop ::
  "catalog \<Rightarrow> rcomp list \<Rightarrow> real \<Rightarrow> real \<Rightarrow> string option \<Rightarrow> real \<Rightarrow> (nat \<Rightarrow> sa_draw)
     \<Rightarrow> (nat \<Rightarrow> real) \<Rightarrow> sa_state \<Rightarrow> py_error + sa_state" where
  "sa_loop db components w h mcu_ref time_cap draws clock s =
     (if T_min < temperature s \<and> itr s < MAX_ITR then
        (if itr s mod 200 = 0 \<and> time_cap < clock (itr s) then Inr s
         else (let s' = s\<lparr>itr := itr s + 1\<rparr>;
                   d = draws (itr s')
               in case sa_move db components w h 3 (temperature s') d (current s') of
                    Inl e \<Rightarrow> Inl e
                  | Inr None \<Rightarrow> sa_loop db components w h mcu_ref time_cap draws clock s'
                  | Inr (Some candidate) \<Rightarrow>
                      sa_loop db components w h mcu_ref time_cap draws clock
                        (sa_accept d candidate
                           (score db components candidate w h mcu_ref) s')))
      else Inr s)"
  by pat_completeness auto
termination
  by (relation "measure (\<lambda>(db, components, w, h, mcu_ref, time_cap, draws, clock, s).
        MAX_ITR - itr s)")
     (auto simp: sa_accept_def Let_def)

declare sa_loop.simps [simp del]

definition simulated_annealing ::
  "catalog \<Rightarrow> rcomp list \<Rightarrow> placement \<Rightarrow> real \<Rightarrow> real \<Rightarrow> string option \<Rightarrow> real
     \<Rightarrow> (nat \<Rightarrow> sa_draw) \<Rightarrow> (nat \<Rightarrow> real) \<Rightarrow> py_error + (placement \<times> real \<times> real \<times> nat)" where
  "simulated_annealing db components placement w h mcu_ref time_cap draws clock =
     (if length components \<le> 1 then Inr (placement, 0, 0, 0)
      else (let init_s = score db components placement w h mcu_ref;
                s0 = \<lparr>current = placement, best = placement, cur_s = init_s,
                      best_s = init_s, temperature = 80, itr = 0\<rparr>
            in case sa_loop db components w h mcu_ref time_cap draws clock s0 of
                 Inl e \<Rightarrow> Inl e
               | Inr s \<Rightarrow> Inr (best s, init_s, best_s s, itr s)))"

text \<open>
  \<^verbatim>\<open>run\<close> without its file input and output: with no component it reports the scores
  0 and 0 and 0 iterations at once; otherwise it assigns the references, builds the seed
  placement, finds the MCU reference (the first instance whose id is
  \<^verbatim>\<open>resolved["mcu"]["id"]\<close>) and anneals, with the default margin 3.0 and time cap 10.0.
  The result is the component list, the placement and the three numbers that the output
  file is built from.
\<close>

definition run ::
  "catalog \<Rightarrow> string list \<Rightarrow> string option \<Rightarrow> real \<Rightarrow> real \<Rightarrow> (nat \<Rightarrow> real \<times> real)
     \<Rightarrow> (nat \<Rightarrow> sa_draw) \<Rightarrow> (nat \<Rightarrow> real)
     \<Rightarrow> py_error + (rcomp list \<times> placement \<times> real \<times> real \<times> nat)" where
  "run db resolved_components mcu_id w h jitter draws clock =
     (if resolved_components = [] then Inr ([], Map.empty, 0, 0, 0)
      else (let components = assign_refs db resolved_components;
                placement = initial_placement db components w h 3 jitter;
                mcu_ref = map_option ref
                            (find (\<lambda>rc. Some (component_id rc) = mcu_id) components)
            in case simulated_annealing db components placement w h mcu_ref 10 draws clock of
                 Inl e \<Rightarrow> Inl e
               | Inr res \<Rightarrow> Inr (components, res)))"

section \<open>The vocabulary of the specification\<close>

text \<open>
  The definitions of this section are not part of the program: they write down the
  terms in which the specification states its properties, to be compared with what the
  code computes. \<open>ZONE_NAMES\<close> are the keys of the dictionary in \<^verbatim>\<open>zone_centre\<close>.
\<close>

definition ZONE_NAMES :: "string list" where
  "ZONE_NAMES = [''edge_top'', ''edge_bottom'', ''edge_left'', ''edge_right'', ''centre'',
                 ''centre_right'', ''power_column'', ''any'']"

text \<open>
  A footprint inflated by its courtyard clearance on all sides: its half-extents, the
  axis-aligned separations of two centres, and the courtyard as the open rectangle
  around the centre. Two courtyards intersect when they share an interior point;
  courtyards that only touch along an edge do not. As in the score and in the
  specification's bounds, a footprint is its nominal width by its nominal height
  whatever its rotation.
\<close>

definition half_extent_x :: "catalog \<Rightarrow> rcomp \<Rightarrow> real" where
  "half_extent_x db rc =
     fst (entry_dims (get_comp db (component_id rc))) / 2
       + get_or (courtyard_clearance_mm (get_comp db (component_id rc))) (1/4)"

definition half_extent_y :: "catalog \<Rightarrow> rcomp \<Rightarrow> real" where
  "half_extent_y db rc =
     snd (entry_dims (get_comp db (component_id rc))) / 2
       + get_or (courtyard_clearance_mm (get_comp db (component_id rc))) (1/4)"

definition separation_x :: "placement \<Rightarrow> rcomp \<Rightarrow> rcomp \<Rightarrow> real" where
  "separation_x pl a b = \<bar>fst (get_pos (ref a) pl) - fst (get_pos (ref b) pl)\<bar>"

definition separation_y :: "placement \<Rightarrow> rcomp \<Rightarrow> rcomp \<Rightarrow> real" where
  "separation_y pl a b = \<bar>snd (get_pos (ref a) pl) - snd (get_pos (ref b) pl)\<bar>"

definition courtyard :: "catalog \<Rightarrow> placement \<Rightarrow> rcomp \<Rightarrow> (real \<times> real) set" where
  "courtyard db pl rc =
     {(px, py). \<bar>px - fst (get_pos (ref rc) pl)\<bar> < half_extent_x db rc
              \<and> \<bar>py - snd (get_pos (ref rc) pl)\<bar> < half_extent_y db rc}"

text \<open>
  The overlap of two courtyards: the width and the height of the region that both
  cover, that is the lengths of the intersections of their projections on the two
  axes, and 0 when the projections do not meet.
\<close>

definition overlap_width :: "catalog \<Rightarrow> placement \<Rightarrow> rcomp \<Rightarrow> rcomp \<Rightarrow> real" where
  "overlap_width db pl a b =
     max 0 (min (fst (get_pos (ref a) pl) + half_extent_x db a)
                (fst (get_pos (ref b) pl) + half_extent_x db b)
            - max (fst (get_pos (ref a) pl) - half_extent_x db a)
                  (fst (get_pos (ref b) pl) - half_extent_x db b))"

definition overlap_height :: "catalog \<Rightarrow> placement \<Rightarrow> rcomp \<Rightarrow> rcomp \<Rightarrow> real" where
  "overlap_height db pl a b =
     max 0 (min (snd (get_pos (ref a) pl) + half_extent_y db a)
                (snd (get_pos (ref b) pl) + half_extent_y db b)
            - max (snd (get_pos (ref a) pl) - half_extent_y db a)
                  (snd (get_pos (ref b) pl) - half_extent_y db b))"

text \<open>The unordered pairs of a list, each once, the earlier element first.\<close>

fun pairs :: "'a list \<Rightarrow> ('a \<times> 'a) list" where
  "pairs [] = []"
| "pairs (a # rest) = map (Pair a) rest @ pairs rest"

text \<open>
  The category weights of the wiring term as the specification lists them, the category
  of an instance (an entry without one counts as passive), and the Euclidean distance.
\<close>

definition category_weight :: "string \<Rightarrow> real" where
  "category_weight cat =
     (if cat = ''mcu'' then 0 else if cat = ''power'' then 8/10
      else if cat = ''sensor'' then 1 else if cat = ''comms'' then 12/10
      else if cat = ''motor_driver'' then 6/10 else if cat = ''display'' then 5/10
      else if cat = ''connector'' then 3/10 else if cat = ''passive'' then 1/10
      else 1/2)"

definition rc_category :: "catalog \<Rightarrow> rcomp \<Rightarrow> string" where
  "rc_category db rc = get_or (category (get_comp db (component_id rc))) ''passive''"

definition distance :: "real \<times> real \<Rightarrow> real \<times> real \<Rightarrow> real" where
  "distance p q = sqrt ((fst p - fst q)\<^sup>2 + (snd p - snd q)\<^sup>2)"

text \<open>
  Decimal digits, and prefixes that do not end in one: after such a prefix the counter
  can be read back from the end of a reference designator.
\<close>

definition is_digit :: "char \<Rightarrow> bool" where
  "is_digit c = (c \<in> set ''0123456789'')"

definition no_digit_end :: "string \<Rightarrow> bool" where
  "no_digit_end p = (p = [] \<or> \<not> is_digit (last p))"

text \<open>
  Containment: the footprint of an instance, of its nominal width and height around the
  centre \<open>p\<close>, lies inside the board less its margin.
\<close>

definition contained :: "catalog \<Rightarrow> real \<Rightarrow> real \<Rightarrow> real \<Rightarrow> rcomp \<Rightarrow> pos \<Rightarrow> bool" where
  "contained db w h margin rc p =
     (let (width, height) = entry_dims (get_comp db (component_id rc))
      in margin + width / 2 \<le> x_mm p \<and> x_mm p \<le> w - margin - width / 2
       \<and> margin + height / 2 \<le> y_mm p \<and> y_mm p \<le> h - margin - height / 2)"

section \<open>A small board\<close>

text \<open>
  A catalog of three parts on the default 100 x 80 mm board: a microcontroller, a
  regulator, and a sensor whose entry names the zone \<^verbatim>\<open>center\<close>, which is not among the
  zone names of the program.
\<close>

definition ex_db :: catalog where
  "ex_db = [''esp32'' \<mapsto> no_entry\<lparr>category := Some ''mcu''\<rparr>,
            ''ldo'' \<mapsto> no_entry\<lparr>category := Some ''power''\<rparr>,
            ''qfn'' \<mapsto> no_entry\<lparr>category := Some ''sensor'', placement_zone := Some ''center''\<rparr>]"

definition ex_components :: "rcomp list" where
  "ex_components = [\<lparr>component_id = ''esp32'', ref = ''U1''\<rparr>,
                    \<lparr>component_id = ''ldo'', ref = ''U2''\<rparr>,
                    \<lparr>component_id = ''qfn'', ref = ''U3''\<rparr>]"

definition ex_placement :: placement where
  "ex_placement = [''U1'' \<mapsto> \<lparr>x_mm = 50, y_mm = 40, rotation = 0\<rparr>,
                   ''U2'' \<mapsto> \<lparr>x_mm = 14, y_mm = 40, rotation = 0\<rparr>,
                   ''U3'' \<mapsto> \<lparr>x_mm = 70, y_mm = 40, rotation = 0\<rparr>]"

definition ex_draws :: "nat \<Rightarrow> sa_draw" where
  "ex_draws i = \<lparr>move = 6/10, pick = i, gauss_x = 0, gauss_y = 0, sample = (0, i),
                 accept = 1/2\<rparr>"

definition ex_clock :: "nat \<Rightarrow> real" where
  "ex_clock i = real i / 1000"

text \<open>
  A catalog whose hub names the designator prefix \<^verbatim>\<open>U1\<close>, and a component list of
  eleven sensors followed by one hub.
\<close>

definition c5_db :: catalog where
  "c5_db = [''ic'' \<mapsto> no_entry\<lparr>category := Some ''sensor''\<rparr>,
            ''hub'' \<mapsto> no_entry\<lparr>category := Some ''comms'',
                                ref_designator_prefix := Some ''U1''\<rparr>]"

definition c5_components :: "string list" where
  "c5_components = [''ic'', ''ic'', ''ic'', ''ic'', ''ic'', ''ic'', ''ic'', ''ic'', ''ic'', ''ic'',
                    ''ic'', ''hub'']"

text \<open>
  A run in which a swap takes a part off the board. Two resistors and a 50 x 20 mm
  holder, all in the zone \<^verbatim>\<open>any\<close>, on the default board; no MCU. The jitter is zero.
  The first iteration translates the resistor \<^verbatim>\<open>R1\<close> by 2.75 standard deviations up the
  y axis, the second swaps \<^verbatim>\<open>R1\<close> and the holder \<^verbatim>\<open>U1\<close>, and all later iterations
  rotate some part. \<open>c2_seed\<close>, \<open>c2_moved\<close> and \<open>c2_swapped\<close> are the placements
  before the first, after the first and after the second iteration.
\<close>

definition c2_db :: catalog where
  "c2_db = [''res'' \<mapsto> no_entry\<lparr>category := Some ''passive'', subcategory := Some ''resistor''\<rparr>,
            ''holder'' \<mapsto> no_entry\<lparr>category := Some ''mechanical'',
                                   dimensions_mm := Some (50, 20)\<rparr>]"

definition c2_components :: "string list" where
  "c2_components = [''res'', ''holder'', ''res'']"

definition c2_placed :: "rcomp list" where
  "c2_placed = [\<lparr>component_id = ''res'', ref = ''R1''\<rparr>,
                \<lparr>component_id = ''holder'', ref = ''U1''\<rparr>,
                \<lparr>component_id = ''res'', ref = ''R2''\<rparr>]"

definition c2_jitter :: "nat \<Rightarrow> real \<times> real" where
  "c2_jitter k = (0, 0)"

definition c2_draws :: "nat \<Rightarrow> sa_draw" where
  "c2_draws i =
     (if i = 1 then \<lparr>move = 1/4, pick = 0, gauss_x = 0, gauss_y = 11/4, sample = (0, 0),
                     accept = 1/2\<rparr>
      else if i = 2 then \<lparr>move = 4/5, pick = 0, gauss_x = 0, gauss_y = 0, sample = (0, 0),
                          accept = 1/2\<rparr>
      else \<lparr>move = 3/5, pick = i, gauss_x = 0, gauss_y = 0, sample = (0, 0), accept = 1/2\<rparr>)"

definition c2_clock :: "nat \<Rightarrow> real" where
  "c2_clock i = real i / 1000"

definition c2_seed :: placement where
  "c2_seed = [''R1'' \<mapsto> \<lparr>x_mm = 41, y_mm = 37, rotation = 0\<rparr>,
              ''U1'' \<mapsto> \<lparr>x_mm = 28, y_mm = 29, rotation = 0\<rparr>,
              ''R2'' \<mapsto> \<lparr>x_mm = 53, y_mm = 37, rotation = 0\<rparr>]"

definition c2_moved :: placement where
  "c2_moved = c2_seed(''R1'' \<mapsto> \<lparr>x_mm = 41, y_mm = 70, rotation = 0\<rparr>)"

definition c2_swapped :: placement where
  "c2_swapped = c2_moved(''R1'' \<mapsto> \<lparr>x_mm = 28, y_mm = 29, rotation = 0\<rparr>,
                         ''U1'' \<mapsto> \<lparr>x_mm = 41, y_mm = 70, rotation = 0\<rparr>)"

section \<open>The score function\<close>

subsection \<open>The overlap penalty of a pair\<close>

lemma overlap_penalty_eq:
  "overlap_penalty db (ref a) a (ref b) b pl =
     (if separation_x pl a b < half_extent_x db a + half_extent_x db b
         \<and> separation_y pl a b < half_extent_y db a + half_extent_y db b
      then (half_extent_x db a + half_extent_x db b - separation_x pl a b)
           * (half_extent_y db a + half_extent_y db b - separation_y pl a b) * 50
      else 0)"
  by (simp add: overlap_penalty_def get_dims_def Let_def half_extent_x_def half_extent_y_def
        separation_x_def separation_y_def split: prod.splits) (auto simp: field_simps)

lemma overlap_penalty_nonneg: "0 \<le> overlap_penalty db (ref a) a (ref b) b pl"
  by (simp add: overlap_penalty_eq)

lemma overlap_penalty_zero_iff:
  "overlap_penalty db (ref a) a (ref b) b pl = 0 \<longleftrightarrow>
     \<not> (separation_x pl a b < half_extent_x db a + half_extent_x db b
        \<and> separation_y pl a b < half_extent_y db a + half_extent_y db b)"
  by (auto simp add: overlap_penalty_eq)

lemma overlap_penalty_sym:
  "overlap_penalty db (ref b) b (ref a) a pl = overlap_penalty db (ref a) a (ref b) b pl"
  by (simp add: overlap_penalty_eq separation_x_def separation_y_def abs_minus_commute
        add.commute)

text \<open>
  The overlap extent on an axis, the sum of the half-extents less the separation, is
  the length of the intersection of the two projections when neither projection lies
  inside the other; when one does, the intersection is the smaller projection and the
  extent the penalty multiplies is longer.
\<close>

lemma overlap_extent_crossing:
  fixes a b ha hb :: real
  assumes "\<bar>ha - hb\<bar> \<le> \<bar>a - b\<bar>"
  shows "min (a + ha) (b + hb) - max (a - ha) (b - hb) = ha + hb - \<bar>a - b\<bar>"
  using assms by (auto simp: min_def max_def abs_if split: if_splits)

lemma overlap_extent_nested:
  fixes a b ha hb :: real
  assumes "\<bar>a - b\<bar> < \<bar>ha - hb\<bar>"
  shows "min (a + ha) (b + hb) - max (a - ha) (b - hb) = 2 * min ha hb"
  using assms by (auto simp: min_def max_def abs_if split: if_splits)

text \<open>
  The region that two courtyards share is the open rectangle between the larger of
  their lower bounds and the smaller of their upper bounds on each axis, so
  \<open>overlap_width\<close> and \<open>overlap_height\<close> are its sides. Where neither projection lies
  inside the other on either axis, the penalty is the area of that region times 50.
\<close>

lemma courtyard_Int:
  "courtyard db pl a \<inter> courtyard db pl b =
     {(px, py).
        max (fst (get_pos (ref a) pl) - half_extent_x db a)
            (fst (get_pos (ref b) pl) - half_extent_x db b) < px
      \<and> px < min (fst (get_pos (ref a) pl) + half_extent_x db a)
                   (fst (get_pos (ref b) pl) + half_extent_x db b)
      \<and> max (snd (get_pos (ref a) pl) - half_extent_y db a)
              (snd (get_pos (ref b) pl) - half_extent_y db b) < py
      \<and> py < min (snd (get_pos (ref a) pl) + half_extent_y db a)
                   (snd (get_pos (ref b) pl) + half_extent_y db b)}"
  unfolding courtyard_def by (auto simp: abs_less_iff)

lemma overlap_penalty_crossing:
  assumes "\<bar>half_extent_x db a - half_extent_x db b\<bar> \<le> separation_x pl a b"
    and "\<bar>half_extent_y db a - half_extent_y db b\<bar> \<le> separation_y pl a b"
  shows "overlap_penalty db (ref a) a (ref b) b pl
         = overlap_width db pl a b * overlap_height db pl a b * 50"
proof -
  have w: "overlap_width db pl a b
           = max 0 (half_extent_x db a + half_extent_x db b - separation_x pl a b)"
    using overlap_extent_crossing[of "half_extent_x db a" "half_extent_x db b"
            "fst (get_pos (ref a) pl)" "fst (get_pos (ref b) pl)"] assms(1)
    by (simp add: overlap_width_def separation_x_def)
  have h: "overlap_height db pl a b
           = max 0 (half_extent_y db a + half_extent_y db b - separation_y pl a b)"
    using overlap_extent_crossing[of "half_extent_y db a" "half_extent_y db b"
            "snd (get_pos (ref a) pl)" "snd (get_pos (ref b) pl)"] assms(2)
    by (simp add: overlap_height_def separation_y_def)
  show ?thesis
    unfolding overlap_penalty_eq w h by (auto simp: max_def)
qed

subsection \<open>Each running total is a sum\<close>

lemma overlap_inner_sum:
  "overlap_inner db pl a s rest
     = s + (\<Sum>b\<leftarrow>rest. overlap_penalty db (ref a) a (ref b) b pl)"
  by (induction rest arbitrary: s) auto

lemma overlap_outer_sum:
  "overlap_outer db pl s comps
     = s + (\<Sum>(a, b)\<leftarrow>pairs comps. overlap_penalty db (ref a) a (ref b) b pl)"
  by (induction comps arbitrary: s) (auto simp: overlap_inner_sum comp_def)

lemma zone_loop_sum:
  "zone_loop db pl w h s comps
     = s + (\<Sum>rc\<leftarrow>comps. zone_penalty db (ref rc) (component_id rc) pl w h 3)"
  by (induction comps arbitrary: s) auto

lemma wire_weight: "dict_get WEIGHTS cat (1/2) = category_weight cat"
  by (simp add: dict_get_def WEIGHTS_def category_weight_def)

lemma wire_loop_sum:
  "wire_loop db pl mcu m tot comps =
     tot + (\<Sum>rc\<leftarrow>filter (\<lambda>rc. ref rc \<noteq> mcu) comps.
              distance (get_pos (ref rc) pl) m * category_weight (rc_category db rc))"
  by (induction comps arbitrary: tot)
     (auto simp: wire_weight rc_category_def distance_def hypot_def Let_def split: prod.splits)

lemma score_sum:
  "score db comps pl w h mcu_ref =
     wire_length_score db comps pl mcu_ref
     + (\<Sum>rc\<leftarrow>comps. zone_penalty db (ref rc) (component_id rc) pl w h 3)
     + (\<Sum>(a, b)\<leftarrow>pairs comps. overlap_penalty db (ref a) a (ref b) b pl)"
  by (simp add: score_def overlap_outer_sum zone_loop_sum)

subsection \<open>The three terms are non-negative\<close>

lemma category_weight_nonneg: "0 \<le> category_weight cat"
  by (simp add: category_weight_def)

lemma wire_length_score_nonneg: "0 \<le> wire_length_score db comps pl mcu_ref"
  by (auto simp: wire_length_score_def wire_loop_sum distance_def category_weight_nonneg
        intro!: sum_list_nonneg split: option.splits)

lemma zone_penalty_nonneg: "0 \<le> zone_penalty db r cid pl w h margin"
  by (auto simp: zone_penalty_def Let_def hypot_def split: prod.splits)

lemma score_nonneg: "0 \<le> score db comps pl w h mcu_ref"
proof -
  have "0 \<le> (\<Sum>rc\<leftarrow>comps. zone_penalty db (ref rc) (component_id rc) pl w h 3)"
    by (intro sum_list_nonneg) (auto simp: zone_penalty_nonneg)
  moreover have "0 \<le> (\<Sum>(a, b)\<leftarrow>pairs comps. overlap_penalty db (ref a) a (ref b) b pl)"
    by (intro sum_list_nonneg) (auto simp: overlap_penalty_nonneg)
  ultimately show ?thesis
    using wire_length_score_nonneg[of db comps pl mcu_ref] by (simp add: score_sum)
qed

subsection \<open>Overlap of courtyards\<close>

lemma pairs_sorted_wrt: "(\<forall>(a, b)\<in>set (pairs xs). P a b) \<longleftrightarrow> sorted_wrt P xs"
  by (induction xs) auto

lemma overlap_outer_zero_iff:
  "overlap_outer db pl 0 comps = 0 \<longleftrightarrow>
     sorted_wrt (\<lambda>a b. overlap_penalty db (ref a) a (ref b) b pl = 0) comps"
proof -
  have "(\<Sum>(a, b)\<leftarrow>pairs comps. overlap_penalty db (ref a) a (ref b) b pl) = 0 \<longleftrightarrow>
        (\<forall>(a, b)\<in>set (pairs comps). overlap_penalty db (ref a) a (ref b) b pl = 0)"
    by (subst sum_list_nonneg_eq_0_iff) (auto simp: overlap_penalty_nonneg)
  then show ?thesis
    by (simp add: overlap_outer_sum pairs_sorted_wrt)
qed

lemma intervals_meet:
  fixes a b ha hb :: real
  assumes "0 < ha" "0 < hb"
  shows "(\<exists>p. \<bar>p - a\<bar> < ha \<and> \<bar>p - b\<bar> < hb) \<longleftrightarrow> \<bar>a - b\<bar> < ha + hb"
proof
  assume "\<exists>p. \<bar>p - a\<bar> < ha \<and> \<bar>p - b\<bar> < hb"
  then show "\<bar>a - b\<bar> < ha + hb" by auto
next
  assume h: "\<bar>a - b\<bar> < ha + hb"
  define p where "p = (max (a - ha) (b - hb) + min (a + ha) (b + hb)) / 2"
  have "\<bar>p - a\<bar> < ha \<and> \<bar>p - b\<bar> < hb"
    using h assms unfolding p_def by (auto simp: max_def min_def abs_if field_simps)
  then show "\<exists>p. \<bar>p - a\<bar> < ha \<and> \<bar>p - b\<bar> < hb" by blast
qed

lemma courtyards_meet:
  assumes "0 < half_extent_x db a" "0 < half_extent_y db a"
          "0 < half_extent_x db b" "0 < half_extent_y db b"
  shows "courtyard db pl a \<inter> courtyard db pl b \<noteq> {} \<longleftrightarrow>
           separation_x pl a b < half_extent_x db a + half_extent_x db b
         \<and> separation_y pl a b < half_extent_y db a + half_extent_y db b"
proof -
  have "courtyard db pl a \<inter> courtyard db pl b \<noteq> {} \<longleftrightarrow>
        (\<exists>px. \<bar>px - fst (get_pos (ref a) pl)\<bar> < half_extent_x db a
             \<and> \<bar>px - fst (get_pos (ref b) pl)\<bar> < half_extent_x db b)
      \<and> (\<exists>py. \<bar>py - snd (get_pos (ref a) pl)\<bar> < half_extent_y db a
             \<and> \<bar>py - snd (get_pos (ref b) pl)\<bar> < half_extent_y db b)"
    unfolding courtyard_def by auto
  then show ?thesis
    by (simp add: intervals_meet assms separation_x_def separation_y_def)
qed

lemma ex_half_extents:
  "\<forall>c\<in>set ex_components. 0 < half_extent_x ex_db c \<and> 0 < half_extent_y ex_db c"
  by (simp add: ex_components_def ex_db_def half_extent_x_def half_extent_y_def get_comp_def
        entry_dims_def no_entry_def get_or_def dict_get_def FALLBACK_DIMS_def)

lemma ex_overlap_free: "overlap_outer ex_db ex_placement 0 ex_components = 0"
  by (simp add: ex_components_def ex_db_def ex_placement_def overlap_penalty_def get_pos_def
        get_dims_def get_comp_def entry_dims_def no_entry_def get_or_def dict_get_def
        FALLBACK_DIMS_def)

text \<open>
  C3. The overlap term that \<^verbatim>\<open>score\<close> adds up is zero exactly when no two courtyards
  (footprints inflated by their clearance on all sides, of positive extent) intersect:
  for every pair of instances, the earlier first, the two open rectangles are disjoint.
\<close>

theorem overlap_soundness:
  assumes "\<forall>c\<in>set comps. 0 < half_extent_x db c \<and> 0 < half_extent_y db c"
  shows "overlap_outer db pl 0 comps = 0 \<longleftrightarrow>
         (\<forall>i j. i < j \<longrightarrow> j < length comps \<longrightarrow>
            courtyard db pl (comps ! i) \<inter> courtyard db pl (comps ! j) = {})"
proof -
  have "overlap_penalty db (ref (comps ! i)) (comps ! i) (ref (comps ! j)) (comps ! j) pl = 0
        \<longleftrightarrow> courtyard db pl (comps ! i) \<inter> courtyard db pl (comps ! j) = {}"
    if "i < j" "j < length comps" for i j
  proof -
    have "comps ! i \<in> set comps" "comps ! j \<in> set comps" using that by auto
    with assms show ?thesis
      using courtyards_meet[of db "comps ! i" "comps ! j" pl]
      unfolding overlap_penalty_zero_iff by blast
  qed
  then show ?thesis
    by (auto simp add: overlap_outer_zero_iff sorted_wrt_iff_nth_less)
qed

theorem overlap_soundness_witness:
  "overlap_outer ex_db ex_placement 0 ex_components = 0
   \<and> courtyard ex_db ex_placement (ex_components ! 0)
       \<inter> courtyard ex_db ex_placement (ex_components ! 1) = {}
   \<and> courtyard ex_db ex_placement (ex_components ! 0)
       \<inter> courtyard ex_db ex_placement (ex_components ! 2) = {}
   \<and> courtyard ex_db ex_placement (ex_components ! 1)
       \<inter> courtyard ex_db ex_placement (ex_components ! 2) = {}"
proof -
  have len: "length ex_components = 3" by (simp add: ex_components_def)
  have "\<forall>i j. i < j \<longrightarrow> j < length ex_components \<longrightarrow>
          courtyard ex_db ex_placement (ex_components ! i)
            \<inter> courtyard ex_db ex_placement (ex_components ! j) = {}"
    using overlap_soundness[OF ex_half_extents, of ex_placement] ex_overlap_free by simp
  then show ?thesis
    using ex_overlap_free len by simp
qed

text \<open>
  C8. Without a designated MCU the wiring term is 0. With one that has a position, it
  is the sum over the instances other than the MCU of the distance from the instance
  centre to the MCU centre times the weight of the instance's category.
\<close>

theorem wiring_term:
  "wire_length_score db comps pl None = 0 \<and>
   (mcu \<noteq> '''' \<longrightarrow> mcu \<in> dom pl \<longrightarrow>
      wire_length_score db comps pl (Some mcu) =
        (\<Sum>rc\<leftarrow>filter (\<lambda>rc. ref rc \<noteq> mcu) comps.
           distance (get_pos (ref rc) pl) (get_pos mcu pl) * category_weight (rc_category db rc)))"
  by (auto simp: wire_length_score_def wire_loop_sum)

theorem wiring_term_witness:
  "''U1'' \<noteq> '''' \<and> ''U1'' \<in> dom ex_placement
   \<and> wire_length_score ex_db ex_components ex_placement None = 0
   \<and> wire_length_score ex_db ex_components ex_placement (Some ''U1'') = 244 / 5"
  using wiring_term[of ex_db ex_components ex_placement "''U1''"]
  by (simp add: ex_db_def ex_components_def ex_placement_def distance_def get_pos_def
        category_weight_def rc_category_def get_comp_def no_entry_def get_or_def)

subsection \<open>Zones\<close>

lemma zone_centre_other:
  "zone = ''any'' \<or> zone \<notin> set ZONE_NAMES \<Longrightarrow> zone_centre zone w h margin = (w / 2, h / 2)"
  by (auto simp add: zone_centre_def dict_get_def ZONE_NAMES_def Let_def)

text \<open>
  C4, as the claim states it, fails: the sensor of the small board names the zone
  \<^verbatim>\<open>center\<close>, which is not a zone name of the program. The zone resolves to the
  centre of the board, and the instance, 20 mm away from it, is charged a zone penalty
  of 18.
\<close>

theorem unrecognized_zone_penalised:
  "entry_zone (get_comp ex_db ''qfn'') = ''center'' \<and> ''center'' \<notin> set ZONE_NAMES
   \<and> zone_centre ''center'' 100 80 3 = (50, 40)
   \<and> zone_penalty ex_db ''U3'' ''qfn'' ex_placement 100 80 3 = 18"
  by (simp add: zone_penalty_def ex_db_def ex_placement_def get_comp_def entry_zone_def
        no_entry_def zone_centre_def dict_get_def get_pos_def hypot_def entry_priority_def
        get_or_def FALLBACK_PRIORITY_def ZONE_NAMES_def)

text \<open>
  C4, amended. A zone that is \<^verbatim>\<open>any\<close> or not a zone name of the program resolves to the
  centre of the board. An instance whose zone is \<^verbatim>\<open>any\<close> contributes zero to the zone
  term; an instance with any other unrecognized zone contributes its distance to the
  centre of the board times its priority weight.
\<close>

theorem zone_any_or_unrecognized:
  "zone = entry_zone (get_comp db cid) \<Longrightarrow> zone = ''any'' \<or> zone \<notin> set ZONE_NAMES \<Longrightarrow>
   zone_centre zone w h margin = (w / 2, h / 2) \<and>
   zone_penalty db r cid placement w h margin =
     (if zone = ''any'' then 0
      else hypot (fst (get_pos r placement) - w / 2) (snd (get_pos r placement) - h / 2)
           * max (1/10) ((10 - entry_priority (get_comp db cid)) * (3/10)))"
  using zone_centre_other[of zone w h margin]
  by (simp add: zone_penalty_def Let_def split: prod.splits)

theorem zone_any_or_unrecognized_witness:
  "''any'' = entry_zone (get_comp ex_db ''nowhere'')
   \<and> zone_centre ''any'' 100 80 3 = (50, 40)
   \<and> zone_penalty ex_db ''U3'' ''nowhere'' ex_placement 100 80 3 = 0"
  using zone_any_or_unrecognized[of "''any''" ex_db "''nowhere''" 100 80 3 "''U3''" ex_placement]
  by (simp add: ex_db_def get_comp_def entry_zone_def no_entry_def dict_get_def get_or_def
        FALLBACK_ZONE_def)

section \<open>The annealing loop\<close>

subsection \<open>The cooling schedule\<close>

lemma cool10: "970401776948/1000000000000 \<le> (997/1000 :: real) ^ 10
             \<and> (997/1000 :: real) ^ 10 \<le> 970401776949/1000000000000"
  by (simp add: power_divide)

lemma cool130: "676660118570/1000000000000 \<le> (997/1000 :: real) ^ 130
              \<and> (997/1000 :: real) ^ 130 \<le> 676660118580/1000000000000"
proof -
  have e: "(997/1000 :: real) ^ 130 = ((997/1000) ^ 10) ^ 13"
    by (simp add: power_mult [symmetric])
  have "(970401776948/1000000000000 :: real) ^ 13 \<le> ((997/1000) ^ 10) ^ 13"
    using cool10 by (intro power_mono) auto
  moreover have "((997/1000 :: real) ^ 10) ^ 13 \<le> (970401776949/1000000000000) ^ 13"
    using cool10 by (intro power_mono) auto
  moreover have "(676660118570/1000000000000 :: real) \<le> (970401776948/1000000000000) ^ 13"
    by (simp add: power_divide)
  moreover have "(970401776949/1000000000000 :: real) ^ 13 \<le> 676660118580/1000000000000"
    by (simp add: power_divide)
  ultimately show ?thesis unfolding e by linarith
qed

lemma cool1690: "6234728505/1000000000000 \<le> (997/1000 :: real) ^ 1690
               \<and> (997/1000 :: real) ^ 1690 \<le> 6234728507/1000000000000"
proof -
  have e: "(997/1000 :: real) ^ 1690 = ((997/1000) ^ 130) ^ 13"
    by (simp add: power_mult [symmetric])
  have "(676660118570/1000000000000 :: real) ^ 13 \<le> ((997/1000) ^ 130) ^ 13"
    using cool130 by (intro power_mono) auto
  moreover have "((997/1000 :: real) ^ 130) ^ 13 \<le> (676660118580/1000000000000) ^ 13"
    using cool130 by (intro power_mono) auto
  moreover have "(6234728505/1000000000000 :: real) \<le> (676660118570/1000000000000) ^ 13"
    by (simp add: power_divide)
  moreover have "(676660118580/1000000000000 :: real) ^ 13 \<le> 6234728507/1000000000000"
    by (simp add: power_divide)
  ultimately show ?thesis unfolding e by linarith
qed

lemma cool_upper: "80 * (997/1000 :: real) ^ 1690 \<le> 1/2"
  using cool1690 by linarith

lemma cool_lower: "1/2 < 80 * (997/1000 :: real) ^ 1689"
proof -
  have "(1690::nat) = Suc 1689" by simp
  then have "(997/1000 :: real) ^ 1690 = (997/1000) ^ 1689 * (997/1000)"
    by (simp only: power_Suc2)
  then show ?thesis using cool1690 by linarith
qed

lemma cooling_bound:
  assumes "T_min < 80 * alpha ^ n"
  shows "n < 1690"
proof (rule ccontr)
  assume "\<not> n < 1690"
  then have "alpha ^ n \<le> alpha ^ 1690"
    by (intro power_decreasing) (auto simp: alpha_def)
  moreover have "80 * alpha ^ 1690 \<le> 1/2"
    unfolding alpha_def by (rule cool_upper)
  ultimately show False
    using assms unfolding T_min_def by linarith
qed

lemma cooling_lower:
  assumes "n \<le> 1689"
  shows "T_min < 80 * alpha ^ n"
proof -
  have "alpha ^ 1689 \<le> alpha ^ n"
    using assms by (intro power_decreasing) (auto simp: alpha_def)
  moreover have "1/2 < 80 * alpha ^ 1689"
    unfolding alpha_def by (rule cool_lower)
  ultimately show ?thesis
    unfolding T_min_def by linarith
qed

subsection \<open>A move never fails on a placement that holds every reference\<close>

lemma choice_ok: "refs \<noteq> [] \<Longrightarrow> \<exists>r. choice refs k = Inr r \<and> r \<in> set refs"
  by (simp add: choice_def)

lemma sample2_in:
  "2 \<le> length refs \<Longrightarrow> fst (sample2 refs k) \<in> set refs \<and> snd (sample2 refs k) \<in> set refs"
proof -
  assume "2 \<le> length refs"
  then have "0 < length refs" by (cases refs) auto
  then show ?thesis
    by (simp add: sample2_def Let_def del: One_nat_def)
qed

lemma find_ref: "r \<in> ref ` set comps \<Longrightarrow> \<exists>rc. find (\<lambda>rc. ref rc = r) comps = Some rc"
  by (cases "find (\<lambda>rc. ref rc = r) comps") (auto simp: find_None_iff)

lemma translate_ok:
  assumes "comps \<noteq> []" "ref ` set comps \<subseteq> dom c"
  shows "\<exists>c'. translate_move db comps w h margin t d c = Inr c' \<and> dom c' = dom c"
proof -
  obtain r where r: "choice (map ref comps) (pick d) = Inr r" "r \<in> ref ` set comps"
    using choice_ok[of "map ref comps" "pick d"] assms(1) by auto
  obtain rc where rc: "find (\<lambda>rc. ref rc = r) comps = Some rc"
    using find_ref r(2) by blast
  obtain p where p: "c r = Some p" using r(2) assms(2) by auto
  show ?thesis
    using r(1) rc p by (auto simp: translate_move_def Let_def)
qed

lemma rotate_ok:
  assumes "comps \<noteq> []" "ref ` set comps \<subseteq> dom c"
  shows "\<exists>c'. rotate_move comps d c = Inr c' \<and> dom c' = dom c"
proof -
  obtain r where r: "choice (map ref comps) (pick d) = Inr r" "r \<in> ref ` set comps"
    using choice_ok[of "map ref comps" "pick d"] assms(1) by auto
  obtain p where p: "c r = Some p" using r(2) assms(2) by auto
  show ?thesis
    using r(1) p by (auto simp: rotate_move_def)
qed

lemma swap_ok:
  assumes "2 \<le> length comps" "ref ` set comps \<subseteq> dom c"
  shows "\<exists>c'. swap_move comps d c = Inr (Some c') \<and> dom c' = dom c"
proof -
  obtain r1 r2 where r: "sample2 (map ref comps) (sample d) = (r1, r2)"
    by (cases "sample2 (map ref comps) (sample d)")
  have "r1 \<in> ref ` set comps" "r2 \<in> ref ` set comps"
    using sample2_in[of "map ref comps" "sample d"] assms(1) r by auto
  then obtain p1 p2 where p: "c r1 = Some p1" "c r2 = Some p2"
    using assms(2) by (meson domD subsetD)
  show ?thesis
    using r p assms(1) by (auto simp: swap_move_def Let_def)
qed

lemma sa_move_ok:
  assumes "2 \<le> length comps" "ref ` set comps \<subseteq> dom c"
  shows "\<exists>c'. sa_move db comps w h margin t d c = Inr (Some c') \<and> dom c' = dom c"
proof -
  have ne: "comps \<noteq> []" using assms(1) by auto
  show ?thesis
    using translate_ok[OF ne assms(2), of db w h margin t d]
          rotate_ok[OF ne assms(2), of d] swap_ok[OF assms, of d]
    by (auto simp: sa_move_def)
qed

lemma sa_accept_fields:
  "itr (sa_accept d cand new_s s) = itr s"
  "temperature (sa_accept d cand new_s s) = temperature s * alpha"
  "current (sa_accept d cand new_s s) = cand \<or> current (sa_accept d cand new_s s) = current s"
  "best_s (sa_accept d cand new_s s) \<le> best_s s"
  "(best (sa_accept d cand new_s s) = best s \<and> best_s (sa_accept d cand new_s s) = best_s s)
   \<or> (best (sa_accept d cand new_s s) = cand \<and> best_s (sa_accept d cand new_s s) = new_s
       \<and> new_s < best_s s)"
  by (auto simp: sa_accept_def Let_def)

subsection \<open>The loop invariant\<close>

text \<open>
  On more than one component and a placement that holds every reference, the loop
  returns; the best score it returns is the score of the best placement it returns and
  is at most any bound on the best score it started from; and while the temperature is
  80 cooled once per iteration, the iteration count stays at most 1690.
\<close>

lemma sa_loop_run:
  assumes "2 \<le> length comps" "ref ` set comps \<subseteq> dom (current s)"
    "best_s s = score db comps (best s) w h mcu" "best_s s \<le> B"
    "temperature s = 80 * alpha ^ itr s" "itr s \<le> 1690"
  shows "\<exists>s'. sa_loop db comps w h mcu tc draws clock s = Inr s'
            \<and> best_s s' = score db comps (best s') w h mcu \<and> best_s s' \<le> B \<and> itr s' \<le> 1690"
  using assms
proof (induction db comps w h mcu tc draws clock s rule: sa_loop.induct)
  case (1 db comps w h mcu tc draws clock s)
  show ?case
  proof (cases "T_min < temperature s \<and> itr s < MAX_ITR")
    case False
    then have "sa_loop db comps w h mcu tc draws clock s = Inr s"
      by (subst sa_loop.simps) auto
    then show ?thesis using "1.prems" by simp
  next
    case go: True
    show ?thesis
    proof (cases "itr s mod 200 = 0 \<and> tc < clock (itr s)")
      case True
      then have "sa_loop db comps w h mcu tc draws clock s = Inr s"
        using go by (subst sa_loop.simps) auto
      then show ?thesis using "1.prems" by simp
    next
      case False
      let ?s1 = "s\<lparr>itr := itr s + 1\<rparr>"
      let ?d = "draws (itr ?s1)"
      obtain cand where mv: "sa_move db comps w h 3 (temperature ?s1) ?d (current ?s1) = Inr (Some cand)"
        and dm: "dom cand = dom (current s)"
        using sa_move_ok[OF "1.prems"(1), of "current ?s1" db w h 3 "temperature ?s1" ?d] "1.prems"(2)
        by auto
      let ?s2 = "sa_accept ?d cand (score db comps cand w h mcu) ?s1"
      have step: "sa_loop db comps w h mcu tc draws clock s
                  = sa_loop db comps w h mcu tc draws clock ?s2"
        using go False mv by (subst sa_loop.simps) (auto simp: Let_def)
      have lt: "itr s < 1690"
        using go "1.prems"(5) cooling_bound by simp
      have "dom (current ?s2) = dom (current s)"
        using sa_accept_fields(3)[of ?d cand "score db comps cand w h mcu" ?s1] dm
        by (elim disjE) simp_all
      then have a: "ref ` set comps \<subseteq> dom (current ?s2)"
        using "1.prems"(2) by simp
      have b: "best_s ?s2 = score db comps (best ?s2) w h mcu"
        using sa_accept_fields(5)[of ?d cand "score db comps cand w h mcu" ?s1] "1.prems"(3)
        by auto
      have c: "best_s ?s2 \<le> B"
        using sa_accept_fields(4)[of ?d cand "score db comps cand w h mcu" ?s1] "1.prems"(4)
        by simp
      have e: "temperature ?s2 = 80 * alpha ^ itr ?s2"
        using "1.prems"(5) by (simp add: sa_accept_fields)
      have f: "itr ?s2 \<le> 1690"
        using lt by (simp add: sa_accept_fields)
      show ?thesis
        unfolding step
        by (rule "1.IH"(2)[OF go False refl refl mv refl "1.prems"(1) a b c e f])
    qed
  qed
qed

text \<open>
  The bound is met: when no clock reading exceeds the time cap, the loop stops after
  exactly 1690 iterations.
\<close>

lemma sa_loop_exact:
  assumes "2 \<le> length comps" "ref ` set comps \<subseteq> dom (current s)"
    "temperature s = 80 * alpha ^ itr s" "itr s \<le> 1690" "\<forall>i. clock i \<le> tc"
    "sa_loop db comps w h mcu tc draws clock s = Inr s'"
  shows "itr s' = 1690"
  using assms
proof (induction db comps w h mcu tc draws clock s rule: sa_loop.induct)
  case (1 db comps w h mcu tc draws clock s)
  show ?case
  proof (cases "T_min < temperature s \<and> itr s < MAX_ITR")
    case False
    then have "sa_loop db comps w h mcu tc draws clock s = Inr s"
      by (subst sa_loop.simps) auto
    then have "s' = s" using "1.prems"(6) by simp
    moreover have "\<not> itr s \<le> 1689"
      using False "1.prems"(3,4) cooling_lower[of "itr s"] by (auto simp: MAX_ITR_def)
    ultimately show ?thesis using "1.prems"(4) by simp
  next
    case go: True
    have no_break: "\<not> (itr s mod 200 = 0 \<and> tc < clock (itr s))"
      using "1.prems"(5) by (auto simp: not_less)
    let ?s1 = "s\<lparr>itr := itr s + 1\<rparr>"
    let ?d = "draws (itr ?s1)"
    obtain cand where mv: "sa_move db comps w h 3 (temperature ?s1) ?d (current ?s1) = Inr (Some cand)"
      and dm: "dom cand = dom (current s)"
      using sa_move_ok[OF "1.prems"(1), of "current ?s1" db w h 3 "temperature ?s1" ?d] "1.prems"(2)
      by auto
    let ?s2 = "sa_accept ?d cand (score db comps cand w h mcu) ?s1"
    have step: "sa_loop db comps w h mcu tc draws clock s
                = sa_loop db comps w h mcu tc draws clock ?s2"
      using go no_break mv by (subst sa_loop.simps) (auto simp: Let_def)
    have lt: "itr s < 1690"
      using go "1.prems"(3) cooling_bound by simp
    have "dom (current ?s2) = dom (current s)"
      using sa_accept_fields(3)[of ?d cand "score db comps cand w h mcu" ?s1] dm
      by (elim disjE) simp_all
    then have a: "ref ` set comps \<subseteq> dom (current ?s2)"
      using "1.prems"(2) by simp
    have e: "temperature ?s2 = 80 * alpha ^ itr ?s2"
      using "1.prems"(3) by (simp add: sa_accept_fields)
    have f: "itr ?s2 \<le> 1690"
      using lt by (simp add: sa_accept_fields)
    have r: "sa_loop db comps w h mcu tc draws clock ?s2 = Inr s'"
      using "1.prems"(6) unfolding step .
    show ?thesis
      by (rule "1.IH"(2)[OF go no_break refl refl mv refl "1.prems"(1) a e f "1.prems"(5) r])
  qed
qed

lemma ex_refs_placed: "ref ` set ex_components \<subseteq> dom ex_placement"
  by (simp add: ex_components_def ex_placement_def)

lemma ex_many: "1 < length ex_components"
  by (simp add: ex_components_def)

text \<open>
  C1. A run of the optimizer on more than one component, from a seed placement that
  holds every reference, returns; the initial score it reports is the score of the
  seed, the final score is the score of the placement it returns, and the final score
  is at most the initial score.
\<close>

theorem monotonic_improvement:
  assumes "1 < length components" "ref ` set components \<subseteq> dom placement"
  shows "\<exists>best_p init_s final_s n.
           simulated_annealing db components placement w h mcu_ref time_cap draws clock
             = Inr (best_p, init_s, final_s, n)
           \<and> init_s = score db components placement w h mcu_ref
           \<and> final_s = score db components best_p w h mcu_ref
           \<and> final_s \<le> init_s"
proof -
  let ?s0 = "\<lparr>current = placement, best = placement,
              cur_s = score db components placement w h mcu_ref,
              best_s = score db components placement w h mcu_ref, temperature = 80, itr = 0\<rparr>"
  have "\<exists>s'. sa_loop db components w h mcu_ref time_cap draws clock ?s0 = Inr s'
            \<and> best_s s' = score db components (best s') w h mcu_ref
            \<and> best_s s' \<le> score db components placement w h mcu_ref \<and> itr s' \<le> 1690"
    using assms by (intro sa_loop_run) auto
  then show ?thesis
    using assms(1) by (auto simp: simulated_annealing_def Let_def)
qed

theorem monotonic_improvement_witness:
  "1 < length ex_components \<and> ref ` set ex_components \<subseteq> dom ex_placement
   \<and> (\<exists>best_p init_s final_s n.
        simulated_annealing ex_db ex_components ex_placement 100 80 (Some ''U1'') 10
          ex_draws ex_clock = Inr (best_p, init_s, final_s, n)
        \<and> init_s = score ex_db ex_components ex_placement 100 80 (Some ''U1'')
        \<and> final_s = score ex_db ex_components best_p 100 80 (Some ''U1'')
        \<and> final_s \<le> init_s)"
  using monotonic_improvement[OF ex_many ex_refs_placed, of ex_db 100 80 "Some ''U1''" 10
          ex_draws ex_clock] ex_many ex_refs_placed
  by simp

text \<open>
  C10. A run on more than one component, from a seed placement that holds every
  reference, returns after at most 1690 iterations, fewer than the cap \<open>MAX_ITR\<close> of
  8000: the temperature, 80 multiplied by 0.997 once per iteration, is at most 0.5
  after 1690 of them.
\<close>

theorem iteration_bound:
  assumes "1 < length components" "ref ` set components \<subseteq> dom placement"
  shows "\<exists>best_p init_s final_s n.
           simulated_annealing db components placement w h mcu_ref time_cap draws clock
             = Inr (best_p, init_s, final_s, n)
           \<and> n \<le> 1690 \<and> n < MAX_ITR"
proof -
  let ?s0 = "\<lparr>current = placement, best = placement,
              cur_s = score db components placement w h mcu_ref,
              best_s = score db components placement w h mcu_ref, temperature = 80, itr = 0\<rparr>"
  have "\<exists>s'. sa_loop db components w h mcu_ref time_cap draws clock ?s0 = Inr s'
            \<and> best_s s' = score db components (best s') w h mcu_ref
            \<and> best_s s' \<le> score db components placement w h mcu_ref \<and> itr s' \<le> 1690"
    using assms by (intro sa_loop_run) auto
  then show ?thesis
    using assms(1) by (auto simp: simulated_annealing_def Let_def MAX_ITR_def)
qed

theorem iteration_bound_witness:
  "1 < length ex_components \<and> ref ` set ex_components \<subseteq> dom ex_placement
   \<and> (\<exists>best_p init_s final_s n.
        simulated_annealing ex_db ex_components ex_placement 100 80 (Some ''U1'') 10
          ex_draws ex_clock = Inr (best_p, init_s, final_s, n)
        \<and> n \<le> 1690 \<and> n < MAX_ITR)"
  using iteration_bound[OF ex_many ex_refs_placed, of ex_db 100 80 "Some ''U1''" 10
          ex_draws ex_clock] ex_many ex_refs_placed
  by simp

subsection \<open>The whole run\<close>

lemma length_assign_refs_loop: "length (assign_refs_loop db c cids) = length cids"
  by (induction cids arbitrary: c) (auto simp: Let_def)

lemma length_assign_refs: "length (assign_refs db cids) = length cids"
  by (simp add: assign_refs_def length_assign_refs_loop)

lemma placement_loop_dom:
  "dom (placement_loop db w h margin jitter k zone_offsets pl comps) = dom pl \<union> ref ` set comps"
  by (induction comps arbitrary: k zone_offsets pl) auto

lemma initial_placement_dom:
  "dom (initial_placement db comps w h margin jitter) = ref ` set comps"
  by (simp add: initial_placement_def placement_loop_dom)

lemma run_nonempty:
  "cids \<noteq> [] \<Longrightarrow>
   run db cids mcu_id w h jitter draws clock =
     (case simulated_annealing db (assign_refs db cids)
             (initial_placement db (assign_refs db cids) w h 3 jitter) w h
             (map_option ref (find (\<lambda>rc. Some (component_id rc) = mcu_id) (assign_refs db cids)))
             10 draws clock of
        Inl e \<Rightarrow> Inl e
      | Inr res \<Rightarrow> Inr (assign_refs db cids, res))"
  by (simp add: run_def Let_def)

text \<open>
  \<^verbatim>\<open>run\<close> on more than one component returns, with a final score that is at most the
  initial score, after at most 1690 iterations: the seed placement it builds holds every
  reference it assigned.
\<close>

lemma run_returns:
  assumes "1 < length cids"
  shows "\<exists>best_p init_s final_s n.
           run db cids mcu_id w h jitter draws clock
             = Inr (assign_refs db cids, best_p, init_s, final_s, n)
           \<and> final_s \<le> init_s \<and> n \<le> 1690"
proof -
  let ?comps = "assign_refs db cids"
  let ?seed = "initial_placement db ?comps w h 3 jitter"
  let ?mcu = "map_option ref (find (\<lambda>rc. Some (component_id rc) = mcu_id) ?comps)"
  let ?s0 = "\<lparr>current = ?seed, best = ?seed, cur_s = score db ?comps ?seed w h ?mcu,
              best_s = score db ?comps ?seed w h ?mcu, temperature = 80, itr = 0\<rparr>"
  have many: "1 < length ?comps" using assms by (simp add: length_assign_refs)
  have "\<exists>s'. sa_loop db ?comps w h ?mcu 10 draws clock ?s0 = Inr s'
            \<and> best_s s' = score db ?comps (best s') w h ?mcu
            \<and> best_s s' \<le> score db ?comps ?seed w h ?mcu \<and> itr s' \<le> 1690"
    using many by (intro sa_loop_run) (auto simp: initial_placement_dom)
  then obtain s' where "sa_loop db ?comps w h ?mcu 10 draws clock ?s0 = Inr s'"
    "best_s s' \<le> score db ?comps ?seed w h ?mcu" "itr s' \<le> 1690"
    by blast
  moreover have "cids \<noteq> []" using assms by auto
  ultimately show ?thesis
    using many by (simp add: run_nonempty simulated_annealing_def Let_def)
qed

text \<open>
  C6. With no component or one, the optimizer returns the seed placement as it is, an
  initial and a final score of 0, and 0 iterations; \<^verbatim>\<open>run\<close> reports the same for an empty
  component list and for a single component.
\<close>

theorem trivial_case:
  "(length components \<le> 1 \<longrightarrow>
      simulated_annealing db components placement w h mcu_ref time_cap draws clock
        = Inr (placement, 0, 0, 0))
   \<and> run db [] mcu_id w h jitter draws clock = Inr ([], Map.empty, 0, 0, 0)
   \<and> run db [cid] mcu_id w h jitter draws clock
       = Inr (assign_refs db [cid], initial_placement db (assign_refs db [cid]) w h 3 jitter,
              0, 0, 0)"
  by (simp add: simulated_annealing_def run_nonempty length_assign_refs) (simp add: run_def)

theorem trivial_case_witness:
  "length [\<lparr>component_id = ''esp32'', ref = ''U1''\<rparr>] \<le> 1
   \<and> simulated_annealing ex_db [\<lparr>component_id = ''esp32'', ref = ''U1''\<rparr>] ex_placement 100 80
       (Some ''U1'') 10 ex_draws ex_clock = Inr (ex_placement, 0, 0, 0)
   \<and> run ex_db [] (Some ''esp32'') 100 80 (\<lambda>k. (0, 0)) ex_draws ex_clock
       = Inr ([], Map.empty, 0, 0, 0)"
  using trivial_case[of "[\<lparr>component_id = ''esp32'', ref = ''U1''\<rparr>]" ex_db ex_placement 100 80
          "Some ''U1''" 10 ex_draws ex_clock "Some ''esp32''" "\<lambda>k. (0, 0)" "''esp32''"]
  by simp

section \<open>Reference designators are a prefix and a counter\<close>

subsection \<open>The decimal representation\<close>

lemma str_nat_small: "n < 10 \<Longrightarrow> str_nat n = [digit_char n]"
  by (subst str_nat.simps) simp

lemma str_nat_big: "10 \<le> n \<Longrightarrow> str_nat n = str_nat (n div 10) @ [digit_char (n mod 10)]"
  by (subst str_nat.simps) simp

lemma digit_char_is_digit: "d < 10 \<Longrightarrow> is_digit (digit_char d)"
  unfolding is_digit_def digit_char_def by (rule nth_mem) simp

lemma digit_char_inj: "a < 10 \<Longrightarrow> b < 10 \<Longrightarrow> digit_char a = digit_char b \<Longrightarrow> a = b"
proof -
  have "distinct ''0123456789''" by simp
  then show "a < 10 \<Longrightarrow> b < 10 \<Longrightarrow> digit_char a = digit_char b \<Longrightarrow> a = b"
    unfolding digit_char_def by (simp add: nth_eq_iff_index_eq)
qed

lemma str_nat_nonempty: "str_nat n \<noteq> []" "[] \<noteq> str_nat n"
  by (subst str_nat.simps, simp)+

lemma str_nat_digits: "c \<in> set (str_nat n) \<Longrightarrow> is_digit c"
proof (induction n arbitrary: c rule: str_nat.induct)
  case (1 n)
  show ?case
  proof (cases "n < 10")
    case True
    with "1.prems" show ?thesis by (simp add: str_nat_small digit_char_is_digit)
  next
    case False
    with "1.prems" "1.IH" show ?thesis
      by (auto simp: str_nat_big digit_char_is_digit)
  qed
qed

lemma str_nat_inj: "str_nat m = str_nat n \<Longrightarrow> m = n"
proof (induction m arbitrary: n rule: str_nat.induct)
  case (1 m)
  show ?case
  proof (cases "m < 10")
    case m: True
    show ?thesis
    proof (cases "n < 10")
      case True
      with m "1.prems" show ?thesis by (simp add: str_nat_small digit_char_inj)
    next
      case False
      with m "1.prems" show ?thesis
        by (simp add: str_nat_small str_nat_big str_nat_nonempty)
    qed
  next
    case m: False
    show ?thesis
    proof (cases "n < 10")
      case True
      with m "1.prems" show ?thesis
        by (simp add: str_nat_small str_nat_big str_nat_nonempty)
    next
      case False
      with m "1.prems" have "str_nat (m div 10) = str_nat (n div 10)"
        and "digit_char (m mod 10) = digit_char (n mod 10)"
        by (simp_all add: str_nat_big)
      then have "m div 10 = n div 10" "m mod 10 = n mod 10"
        using "1.IH" m by (auto intro: digit_char_inj)
      then show ?thesis by (metis div_mult_mod_eq)
    qed
  qed
qed

lemma digit_suffix:
  assumes "no_digit_end p" "\<forall>c\<in>set s. is_digit c"
  shows "takeWhile is_digit (rev (p @ s)) = rev s"
proof -
  have "takeWhile is_digit (rev p) = []"
    using assms(1) by (cases p rule: rev_cases) (auto simp: no_digit_end_def)
  moreover have "takeWhile is_digit (rev s @ rev p) = rev s @ takeWhile is_digit (rev p)"
    by (rule takeWhile_append2) (use assms(2) in auto)
  ultimately show ?thesis by simp
qed

lemma ref_inj:
  assumes "no_digit_end p" "no_digit_end q" "p @ str_nat m = q @ str_nat n"
  shows "p = q \<and> m = n"
proof -
  have "rev (str_nat m) = rev (str_nat n)"
    using digit_suffix[OF assms(1), of "str_nat m"] digit_suffix[OF assms(2), of "str_nat n"]
      assms(3) str_nat_digits by auto
  then have "str_nat m = str_nat n" by simp
  then show ?thesis using assms(3) str_nat_inj by auto
qed

subsection \<open>The prefixes of the fallback tables\<close>

lemma sub_prefix_ok: "map_of SUB_PREFIX k = Some v \<Longrightarrow> no_digit_end v"
proof -
  assume "map_of SUB_PREFIX k = Some v"
  then have "(k, v) \<in> set SUB_PREFIX" by (rule map_of_SomeD)
  then have "v \<in> snd ` set SUB_PREFIX" by force
  moreover have "\<forall>v\<in>snd ` set SUB_PREFIX. no_digit_end v"
    by (simp add: SUB_PREFIX_def no_digit_end_def is_digit_def)
  ultimately show ?thesis by blast
qed

lemma category_prefix_ok: "no_digit_end (dict_get PREFIX_FALLBACK k ''U'')"
proof (cases "map_of PREFIX_FALLBACK k")
  case None
  then show ?thesis by (simp add: dict_get_def no_digit_end_def is_digit_def)
next
  case (Some v)
  then have "(k, v) \<in> set PREFIX_FALLBACK" by (rule map_of_SomeD)
  then have "v \<in> snd ` set PREFIX_FALLBACK" by force
  moreover have "\<forall>v\<in>snd ` set PREFIX_FALLBACK. no_digit_end v"
    by (simp add: PREFIX_FALLBACK_def no_digit_end_def is_digit_def)
  ultimately have "no_digit_end v" by blast
  then show ?thesis using Some by (simp add: dict_get_def)
qed

lemma fallback_prefix_ok:
  assumes "\<forall>p. ref_designator_prefix e = Some p \<longrightarrow> no_digit_end p"
  shows "no_digit_end (entry_prefix e)"
proof (cases "truthy (ref_designator_prefix e)")
  case True
  then show ?thesis
    using assms by (auto simp: entry_prefix_def truthy_def split: option.splits)
next
  case no_prefix: False
  show ?thesis
  proof (cases "truthy (map_of SUB_PREFIX (get_or (subcategory e) ''''))")
    case True
    then obtain v where "map_of SUB_PREFIX (get_or (subcategory e) '''') = Some v"
      by (auto simp: truthy_def split: option.splits)
    then show ?thesis
      using no_prefix True sub_prefix_ok by (simp add: entry_prefix_def)
  next
    case False
    then show ?thesis
      using no_prefix category_prefix_ok by (simp add: entry_prefix_def)
  qed
qed

subsection \<open>The assignment loop\<close>

lemma loop_refs:
  "rc \<in> set (assign_refs_loop db c cids) \<Longrightarrow>
   \<exists>n. ref rc = entry_prefix (get_comp db (component_id rc)) @ str_nat n
      \<and> get_or (c (entry_prefix (get_comp db (component_id rc)))) 0 < n
      \<and> component_id rc \<in> set cids"
proof (induction cids arbitrary: c)
  case Nil
  then show ?case by simp
next
  case (Cons cid rest)
  let ?p = "entry_prefix (get_comp db cid)"
  let ?n = "get_or (c ?p) 0 + 1"
  from Cons.prems
  consider "rc = \<lparr>component_id = cid, ref = ?p @ str_nat ?n\<rparr>"
    | "rc \<in> set (assign_refs_loop db (c(?p \<mapsto> ?n)) rest)"
    by (auto simp: Let_def)
  then show ?case
  proof cases
    case 1
    then show ?thesis by auto
  next
    case 2
    from Cons.IH[OF 2] obtain n where
      n: "ref rc = entry_prefix (get_comp db (component_id rc)) @ str_nat n"
         "get_or ((c(?p \<mapsto> ?n)) (entry_prefix (get_comp db (component_id rc)))) 0 < n"
         "component_id rc \<in> set rest"
      by blast
    have "get_or (c (entry_prefix (get_comp db (component_id rc)))) 0 < n"
      using n(2) by (auto simp: get_or_def split: if_splits)
    with n show ?thesis by auto
  qed
qed

lemma loop_distinct:
  "\<forall>cid\<in>set cids. no_digit_end (entry_prefix (get_comp db cid)) \<Longrightarrow>
   distinct (map ref (assign_refs_loop db c cids))"
proof (induction cids arbitrary: c)
  case Nil
  then show ?case by simp
next
  case (Cons cid rest)
  let ?p = "entry_prefix (get_comp db cid)"
  let ?n = "get_or (c ?p) 0 + 1"
  have fresh: "?p @ str_nat ?n \<noteq> ref rc"
    if "rc \<in> set (assign_refs_loop db (c(?p \<mapsto> ?n)) rest)" for rc
  proof
    assume eq: "?p @ str_nat ?n = ref rc"
    from loop_refs[OF that] obtain n where
      n: "ref rc = entry_prefix (get_comp db (component_id rc)) @ str_nat n"
         "get_or ((c(?p \<mapsto> ?n)) (entry_prefix (get_comp db (component_id rc)))) 0 < n"
         "component_id rc \<in> set rest"
      by blast
    have "no_digit_end ?p" "no_digit_end (entry_prefix (get_comp db (component_id rc)))"
      using Cons.prems n(3) by auto
    then have pn: "?p = entry_prefix (get_comp db (component_id rc)) \<and> ?n = n"
      using ref_inj eq n(1) by metis
    have eqp: "entry_prefix (get_comp db (component_id rc)) = ?p"
      by (rule sym) (rule conjunct1[OF pn])
    have eqn: "?n = n"
      by (rule conjunct2[OF pn])
    have "get_or ((c(?p \<mapsto> ?n)) ?p) 0 < n"
      using n(2) unfolding eqp .
    then have "?n < n" by (simp add: get_or_def)
    then show False using eqn by simp
  qed
  have "distinct (map ref (assign_refs_loop db (c(?p \<mapsto> ?n)) rest))"
    using Cons.IH Cons.prems by simp
  then show ?case
    using fresh by (auto simp: Let_def)
qed

lemma refs_distinct:
  assumes "\<forall>cid\<in>set cids. \<forall>p. ref_designator_prefix (get_comp db cid) = Some p
             \<longrightarrow> no_digit_end p"
  shows "distinct (map ref (assign_refs db cids))"
  unfolding assign_refs_def
  by (rule loop_distinct) (use assms fallback_prefix_ok in blast)



text \<open>
  C5. The hub's prefix \<^verbatim>\<open>U1\<close> with the counter 1 and the sensors' prefix \<^verbatim>\<open>U\<close> with the
  counter 11 are the same designator \<^verbatim>\<open>U11\<close>: the designators that \<^verbatim>\<open>assign_refs\<close>
  gives to the twelve components are not pairwise distinct.
\<close>

theorem refs_collide:
  "map ref (assign_refs c5_db c5_components)
     = [''U1'', ''U2'', ''U3'', ''U4'', ''U5'', ''U6'', ''U7'', ''U8'', ''U9'', ''U10'', ''U11'',
        ''U11'']
   \<and> \<not> distinct (map ref (assign_refs c5_db c5_components))"
  by code_simp

section \<open>Containment and the swap move\<close>

subsection \<open>Once the best score is zero, the best placement stays\<close>

lemma sa_loop_step:
  assumes "T_min < temperature s" "itr s < MAX_ITR"
    "\<not> (itr s mod 200 = 0 \<and> tc < clock (itr s))"
    "itr s + 1 = i"
    "sa_move db comps w h 3 (temperature s) (draws i) (current s) = Inr (Some cand)"
    "sa_accept (draws i) cand (score db comps cand w h mcu) (s\<lparr>itr := i\<rparr>) = s2"
  shows "sa_loop db comps w h mcu tc draws clock s
         = sa_loop db comps w h mcu tc draws clock s2"
  using assms by (subst sa_loop.simps) (auto simp: Let_def)

lemma sa_loop_frozen:
  assumes "sa_loop db comps w h mcu tc draws clock s = Inr s'" "best_s s \<le> 0"
  shows "best s' = best s \<and> best_s s' = best_s s"
  using assms
proof (induction db comps w h mcu tc draws clock s rule: sa_loop.induct)
  case (1 db comps w h mcu tc draws clock s)
  show ?case
  proof (cases "T_min < temperature s \<and> itr s < MAX_ITR")
    case False
    then have "sa_loop db comps w h mcu tc draws clock s = Inr s"
      by (subst sa_loop.simps) auto
    then show ?thesis using "1.prems" by simp
  next
    case go: True
    show ?thesis
    proof (cases "itr s mod 200 = 0 \<and> tc < clock (itr s)")
      case True
      then have "sa_loop db comps w h mcu tc draws clock s = Inr s"
        using go by (subst sa_loop.simps) auto
      then show ?thesis using "1.prems" by simp
    next
      case False
      let ?s1 = "s\<lparr>itr := itr s + 1\<rparr>"
      let ?d = "draws (itr ?s1)"
      let ?mv = "sa_move db comps w h 3 (temperature ?s1) ?d (current ?s1)"
      have unfold: "sa_loop db comps w h mcu tc draws clock s
          = (case ?mv of
               Inl e \<Rightarrow> Inl e
             | Inr None \<Rightarrow> sa_loop db comps w h mcu tc draws clock ?s1
             | Inr (Some candidate) \<Rightarrow>
                 sa_loop db comps w h mcu tc draws clock
                   (sa_accept ?d candidate (score db comps candidate w h mcu) ?s1))"
        using go False
        by (subst sa_loop.simps) (simp only: Let_def if_True if_False simp_thms)
      show ?thesis
      proof (cases ?mv)
        case (Inl e)
        then show ?thesis using unfold "1.prems"(1) by simp
      next
        case (Inr r)
        show ?thesis
        proof (cases r)
          case None
          have "sa_loop db comps w h mcu tc draws clock ?s1 = Inr s'"
            using unfold Inr None "1.prems"(1) by simp
          moreover have "best_s ?s1 \<le> 0" using "1.prems"(2) by simp
          ultimately have "best s' = best ?s1 \<and> best_s s' = best_s ?s1"
            using Inr None by (intro "1.IH"(1)[OF go False refl refl]) auto
          then show ?thesis by simp
        next
          case (Some cand)
          let ?s2 = "sa_accept ?d cand (score db comps cand w h mcu) ?s1"
          have mv: "?mv = Inr (Some cand)" using Inr Some by simp
          have run: "sa_loop db comps w h mcu tc draws clock ?s2 = Inr s'"
            using unfold mv "1.prems"(1) by simp
          have same: "best ?s2 = best s \<and> best_s ?s2 = best_s s"
            using sa_accept_fields(5)[of ?d cand "score db comps cand w h mcu" ?s1]
              score_nonneg[of db comps cand w h mcu] "1.prems"(2)
            by auto
          then have "best_s ?s2 \<le> 0" using "1.prems"(2) by simp
          then have "best s' = best ?s2 \<and> best_s s' = best_s ?s2"
            by (rule "1.IH"(2)[OF go False refl refl mv refl run])
          then show ?thesis using same by simp
        qed
      qed
    qed
  qed
qed

subsection \<open>The run\<close>

lemma c2_refs: "assign_refs c2_db c2_components = c2_placed"
  by code_simp

lemma round2_int: "round2 (of_int k / 100) = of_int k / 100"
  by (simp add: round2_def round_half_even_def)

lemma c2_res: "get_comp c2_db ''res'' = no_entry\<lparr>category := Some ''passive'', subcategory := Some ''resistor''\<rparr>"
  by (simp add: c2_db_def get_comp_def)

lemma c2_holder: "get_comp c2_db ''holder'' = no_entry\<lparr>category := Some ''mechanical'', dimensions_mm := Some (50, 20)\<rparr>"
  by (simp add: c2_db_def get_comp_def)

lemma c2_dims: "entry_dims (get_comp c2_db ''res'') = (1, 1/2)"
  "entry_dims (get_comp c2_db ''holder'') = (50, 20)"
  by (simp_all add: c2_res c2_holder entry_dims_def no_entry_def get_or_def dict_get_def FALLBACK_DIMS_def)

lemma c2_zone: "entry_zone (get_comp c2_db ''res'') = ''any''"
  "entry_zone (get_comp c2_db ''holder'') = ''any''"
  by (simp_all add: c2_res c2_holder entry_zone_def no_entry_def get_or_def dict_get_def FALLBACK_ZONE_def)

lemma c2_priority: "entry_priority (get_comp c2_db ''res'') = 9"
  "entry_priority (get_comp c2_db ''holder'') = 9"
  by (simp_all add: c2_res c2_holder entry_priority_def no_entry_def get_or_def dict_get_def FALLBACK_PRIORITY_def)

lemma c2_clearance: "courtyard_clearance_mm (get_comp c2_db ''res'') = None"
  "courtyard_clearance_mm (get_comp c2_db ''holder'') = None"
  by (simp_all add: c2_res c2_holder no_entry_def)

lemma c2_get_dims: "get_dims c2_db ''res'' = (3/2, 1)"
  "get_dims c2_db ''holder'' = (101/2, 41/2)"
  by (simp_all add: get_dims_def c2_dims c2_clearance get_or_def)

lemma round2_nums: "round2 41 = 41" "round2 37 = 37" "round2 28 = 28" "round2 29 = 29" "round2 53 = 53" "round2 70 = 70"
  by (simp_all add: round2_def round_half_even_def)

lemma c2_sorted: "sort_key (\<lambda>c. entry_priority (get_comp c2_db (component_id c))) c2_placed = c2_placed"
  by (simp add: c2_placed_def c2_priority)

lemma c2_initial: "initial_placement c2_db c2_placed 100 80 3 c2_jitter = c2_seed"
  unfolding initial_placement_def c2_sorted
  by (simp add: c2_placed_def c2_seed_def c2_jitter_def place_one_def c2_dims c2_zone
        zone_centre_def dict_get_def get_or_def round2_nums)

lemma c2_lookup:
  "c2_seed ''R1'' = Some \<lparr>x_mm = 41, y_mm = 37, rotation = 0\<rparr>"
  "c2_seed ''U1'' = Some \<lparr>x_mm = 28, y_mm = 29, rotation = 0\<rparr>"
  "c2_seed ''R2'' = Some \<lparr>x_mm = 53, y_mm = 37, rotation = 0\<rparr>"
  "c2_moved ''R1'' = Some \<lparr>x_mm = 41, y_mm = 70, rotation = 0\<rparr>"
  "c2_moved ''U1'' = Some \<lparr>x_mm = 28, y_mm = 29, rotation = 0\<rparr>"
  "c2_moved ''R2'' = Some \<lparr>x_mm = 53, y_mm = 37, rotation = 0\<rparr>"
  "c2_swapped ''R1'' = Some \<lparr>x_mm = 28, y_mm = 29, rotation = 0\<rparr>"
  "c2_swapped ''U1'' = Some \<lparr>x_mm = 41, y_mm = 70, rotation = 0\<rparr>"
  "c2_swapped ''R2'' = Some \<lparr>x_mm = 53, y_mm = 37, rotation = 0\<rparr>"
  by (simp_all add: c2_seed_def c2_moved_def c2_swapped_def)

lemma c2_score_seed: "score c2_db c2_placed c2_seed 100 80 None = 1925"
  by (simp add: score_def wire_length_score_def zone_penalty_def c2_zone c2_placed_def
        overlap_penalty_def c2_get_dims get_pos_def c2_lookup)

lemma c2_score_moved: "score c2_db c2_placed c2_moved 100 80 None = 275 / 2"
  by (simp add: score_def wire_length_score_def zone_penalty_def c2_zone c2_placed_def
        overlap_penalty_def c2_get_dims get_pos_def c2_lookup)

lemma c2_score_swapped: "score c2_db c2_placed c2_swapped 100 80 None = 0"
  by (simp add: score_def wire_length_score_def zone_penalty_def c2_zone c2_placed_def
        overlap_penalty_def c2_get_dims get_pos_def c2_lookup)

lemma c2_move1:
  "sa_move c2_db c2_placed 100 80 3 80 (c2_draws 1) c2_seed = Inr (Some c2_moved)"
  by (simp add: sa_move_def translate_move_def c2_draws_def choice_def c2_placed_def c2_dims
        c2_lookup c2_moved_def round2_nums)

lemma c2_move2:
  "sa_move c2_db c2_placed 100 80 3 t (c2_draws 2) c2_moved = Inr (Some c2_swapped)"
  by (simp add: sa_move_def swap_move_def c2_draws_def sample2_def c2_placed_def
        c2_lookup c2_swapped_def)

lemma c2_seed_contained:
  "contained c2_db 100 80 3 \<lparr>component_id = ''res'', ref = ''R1''\<rparr>
     \<lparr>x_mm = 41, y_mm = 37, rotation = 0\<rparr>"
  "contained c2_db 100 80 3 \<lparr>component_id = ''holder'', ref = ''U1''\<rparr>
     \<lparr>x_mm = 28, y_mm = 29, rotation = 0\<rparr>"
  "contained c2_db 100 80 3 \<lparr>component_id = ''res'', ref = ''R2''\<rparr>
     \<lparr>x_mm = 53, y_mm = 37, rotation = 0\<rparr>"
  by (simp_all add: contained_def c2_dims)

lemma c2_two_steps:
  "sa_loop c2_db c2_placed 100 80 None 10 c2_draws c2_clock
     \<lparr>current = c2_seed, best = c2_seed, cur_s = 1925, best_s = 1925, temperature = 80,
      itr = 0\<rparr>
   = sa_loop c2_db c2_placed 100 80 None 10 c2_draws c2_clock
     \<lparr>current = c2_swapped, best = c2_swapped, cur_s = 0, best_s = 0,
      temperature = 80 * alpha ^ 2, itr = 2\<rparr>"
proof -
  let ?s0 = "\<lparr>current = c2_seed, best = c2_seed, cur_s = 1925, best_s = 1925,
              temperature = 80, itr = 0\<rparr>"
  let ?s1 = "\<lparr>current = c2_moved, best = c2_moved, cur_s = 275 / 2, best_s = 275 / 2,
              temperature = 80 * alpha, itr = 1\<rparr>"
  let ?s2 = "\<lparr>current = c2_swapped, best = c2_swapped, cur_s = 0, best_s = 0,
              temperature = 80 * alpha ^ 2, itr = 2\<rparr>"
  have a1: "sa_accept (c2_draws 1) c2_moved (275 / 2) (?s0\<lparr>itr := 1\<rparr>) = ?s1"
    by (simp add: sa_accept_def)
  have a2: "sa_accept (c2_draws 2) c2_swapped 0 (?s1\<lparr>itr := 2\<rparr>) = ?s2"
    by (simp add: sa_accept_def power2_eq_square)
  have "sa_loop c2_db c2_placed 100 80 None 10 c2_draws c2_clock ?s0
        = sa_loop c2_db c2_placed 100 80 None 10 c2_draws c2_clock ?s1"
  proof (rule sa_loop_step[where i = 1 and cand = c2_moved])
    show "sa_move c2_db c2_placed 100 80 3 (temperature ?s0) (c2_draws 1) (current ?s0)
          = Inr (Some c2_moved)"
      using c2_move1 by simp
    show "sa_accept (c2_draws 1) c2_moved (score c2_db c2_placed c2_moved 100 80 None)
            (?s0\<lparr>itr := 1\<rparr>) = ?s1"
      unfolding c2_score_moved by (rule a1)
  qed (simp_all add: T_min_def MAX_ITR_def c2_clock_def)
  also have "\<dots> = sa_loop c2_db c2_placed 100 80 None 10 c2_draws c2_clock ?s2"
  proof (rule sa_loop_step[where i = 2 and cand = c2_swapped])
    show "sa_move c2_db c2_placed 100 80 3 (temperature ?s1) (c2_draws 2) (current ?s1)
          = Inr (Some c2_swapped)"
      using c2_move2 by simp
    show "sa_accept (c2_draws 2) c2_swapped (score c2_db c2_placed c2_swapped 100 80 None)
            (?s1\<lparr>itr := 2\<rparr>) = ?s2"
      unfolding c2_score_swapped by (rule a2)
  qed (simp_all add: T_min_def MAX_ITR_def alpha_def c2_clock_def)
  finally show ?thesis .
qed

lemma c2_rest:
  "\<exists>s'. sa_loop c2_db c2_placed 100 80 None 10 c2_draws c2_clock
           \<lparr>current = c2_swapped, best = c2_swapped, cur_s = 0, best_s = 0,
            temperature = 80 * alpha ^ 2, itr = 2\<rparr> = Inr s'
        \<and> best s' = c2_swapped \<and> best_s s' = 0"
proof -
  let ?s2 = "\<lparr>current = c2_swapped, best = c2_swapped, cur_s = 0, best_s = 0,
              temperature = 80 * alpha ^ 2, itr = 2\<rparr>"
  have "\<exists>s'. sa_loop c2_db c2_placed 100 80 None 10 c2_draws c2_clock ?s2 = Inr s'
          \<and> best_s s' = score c2_db c2_placed (best s') 100 80 None \<and> best_s s' \<le> 0
          \<and> itr s' \<le> 1690"
  proof (rule sa_loop_run)
    show "ref ` set c2_placed \<subseteq> dom (current ?s2)"
      by (simp add: c2_placed_def c2_swapped_def c2_moved_def c2_seed_def)
    show "best_s ?s2 = score c2_db c2_placed (best ?s2) 100 80 None"
      by (simp add: c2_score_swapped)
  qed (simp_all add: c2_placed_def)
  then obtain s' where
    s': "sa_loop c2_db c2_placed 100 80 None 10 c2_draws c2_clock ?s2 = Inr s'"
    by blast
  from sa_loop_frozen[OF s'] have "best s' = c2_swapped \<and> best_s s' = 0" by simp
  with s' show ?thesis by blast
qed

text \<open>
  C2. The run returns a placement in which the holder \<^verbatim>\<open>U1\<close>, 20 mm high, is centred
  at y = 70 on the board of height 80 with margin 3: its footprint reaches y = 80,
  beyond the bound 67 for its centre. The seed placement held all three parts inside
  the board (\<open>c2_seed_contained\<close>); the swap gave the holder the position to which the
  resistor had been clamped with the resistor's own half-dimensions.
\<close>

theorem swap_leaves_board:
  "\<exists>n. run c2_db c2_components None 100 80 c2_jitter c2_draws c2_clock
          = Inr (c2_placed, c2_swapped, 1925, 0, n)
      \<and> c2_swapped ''U1'' = Some \<lparr>x_mm = 41, y_mm = 70, rotation = 0\<rparr>
      \<and> \<not> contained c2_db 100 80 3 \<lparr>component_id = ''holder'', ref = ''U1''\<rparr>
             \<lparr>x_mm = 41, y_mm = 70, rotation = 0\<rparr>"
proof -
  obtain s' where
    s': "sa_loop c2_db c2_placed 100 80 None 10 c2_draws c2_clock
           \<lparr>current = c2_seed, best = c2_seed, cur_s = 1925, best_s = 1925, temperature = 80,
            itr = 0\<rparr> = Inr s'"
      "best s' = c2_swapped" "best_s s' = 0"
    using c2_rest unfolding c2_two_steps[symmetric] by blast
  have mcu: "map_option ref (find (\<lambda>rc. Some (component_id rc) = None) c2_placed) = None"
    by (simp add: c2_placed_def)
  have many: "\<not> length c2_placed \<le> 1"
    by (simp add: c2_placed_def)
  have nonempty: "c2_components \<noteq> []"
    by (simp add: c2_components_def)
  have "run c2_db c2_components None 100 80 c2_jitter c2_draws c2_clock
          = Inr (c2_placed, c2_swapped, 1925, 0, itr s')"
    unfolding run_nonempty[OF nonempty] c2_refs c2_initial mcu simulated_annealing_def
      Let_def c2_score_seed
    using many s' by simp
  moreover have "\<not> contained c2_db 100 80 3 \<lparr>component_id = ''holder'', ref = ''U1''\<rparr>
                     \<lparr>x_mm = 41, y_mm = 70, rotation = 0\<rparr>"
    by (simp add: contained_def c2_dims)
  ultimately show ?thesis
    using c2_lookup(8) by blast
qed

section \<open>The overlap penalty and the overlap area\<close>

text \<open>
  C7. In the seed placement of the run above the courtyard of the resistor \<^verbatim>\<open>R1\<close>,
  1.5 by 1 mm, lies inside the courtyard of the holder \<^verbatim>\<open>U1\<close>: both separations are
  less than the sums of the half-extents, the two courtyards overlap in the resistor's
  courtyard, and overlap width times overlap height times 50 is 75. The penalty that
  \<^verbatim>\<open>overlap_penalty\<close> returns for the pair is 1787.5: its \<^verbatim>\<open>overlap_x\<close> and \<^verbatim>\<open>overlap_y\<close>
  are 13 and 2.75, the sums of the half-extents less the separations.
\<close>

theorem overlap_penalty_not_area:
  "separation_x c2_seed \<lparr>component_id = ''res'', ref = ''R1''\<rparr>
       \<lparr>component_id = ''holder'', ref = ''U1''\<rparr>
     < half_extent_x c2_db \<lparr>component_id = ''res'', ref = ''R1''\<rparr>
       + half_extent_x c2_db \<lparr>component_id = ''holder'', ref = ''U1''\<rparr>
   \<and> separation_y c2_seed \<lparr>component_id = ''res'', ref = ''R1''\<rparr>
       \<lparr>component_id = ''holder'', ref = ''U1''\<rparr>
     < half_extent_y c2_db \<lparr>component_id = ''res'', ref = ''R1''\<rparr>
       + half_extent_y c2_db \<lparr>component_id = ''holder'', ref = ''U1''\<rparr>
   \<and> courtyard c2_db c2_seed \<lparr>component_id = ''res'', ref = ''R1''\<rparr>
       \<inter> courtyard c2_db c2_seed \<lparr>component_id = ''holder'', ref = ''U1''\<rparr>
     = courtyard c2_db c2_seed \<lparr>component_id = ''res'', ref = ''R1''\<rparr>
   \<and> overlap_width c2_db c2_seed \<lparr>component_id = ''res'', ref = ''R1''\<rparr>
       \<lparr>component_id = ''holder'', ref = ''U1''\<rparr> = 3 / 2
   \<and> overlap_height c2_db c2_seed \<lparr>component_id = ''res'', ref = ''R1''\<rparr>
       \<lparr>component_id = ''holder'', ref = ''U1''\<rparr> = 1
   \<and> overlap_width c2_db c2_seed \<lparr>component_id = ''res'', ref = ''R1''\<rparr>
         \<lparr>component_id = ''holder'', ref = ''U1''\<rparr>
       * overlap_height c2_db c2_seed \<lparr>component_id = ''res'', ref = ''R1''\<rparr>
           \<lparr>component_id = ''holder'', ref = ''U1''\<rparr> * 50 = 75
   \<and> overlap_penalty c2_db ''R1'' \<lparr>component_id = ''res'', ref = ''R1''\<rparr>
       ''U1'' \<lparr>component_id = ''holder'', ref = ''U1''\<rparr> c2_seed = 3575 / 2"
proof -
  have hx: "half_extent_x c2_db \<lparr>component_id = ''res'', ref = ''R1''\<rparr> = 3 / 4"
      "half_extent_x c2_db \<lparr>component_id = ''holder'', ref = ''U1''\<rparr> = 101 / 4"
    by (simp_all add: half_extent_x_def c2_dims c2_clearance get_or_def)
  have hy: "half_extent_y c2_db \<lparr>component_id = ''res'', ref = ''R1''\<rparr> = 1 / 2"
      "half_extent_y c2_db \<lparr>component_id = ''holder'', ref = ''U1''\<rparr> = 41 / 4"
    by (simp_all add: half_extent_y_def c2_dims c2_clearance get_or_def)
  have p: "get_pos ''R1'' c2_seed = (41, 37)" "get_pos ''U1'' c2_seed = (28, 29)"
    by (simp_all add: get_pos_def c2_lookup)
  have inside: "courtyard c2_db c2_seed \<lparr>component_id = ''res'', ref = ''R1''\<rparr>
                \<subseteq> courtyard c2_db c2_seed \<lparr>component_id = ''holder'', ref = ''U1''\<rparr>"
    by (auto simp: courtyard_def hx hy p abs_if split: if_splits)
  have pen: "overlap_penalty c2_db ''R1'' \<lparr>component_id = ''res'', ref = ''R1''\<rparr>
               ''U1'' \<lparr>component_id = ''holder'', ref = ''U1''\<rparr> c2_seed = 3575 / 2"
    by (simp add: overlap_penalty_def c2_get_dims p)
  show ?thesis
    using inside pen
    by (simp add: overlap_width_def overlap_height_def separation_x_def separation_y_def
          hx hy p Int_absorb2)
qed

end
